theory Spec2Isabelle
  imports Complex_Main "HOL-Library.Word"
begin

section \<open>Energy expenditure (caloricExpenditure.py)\<close>

text \<open>
  Python floats are modelled by the real numbers they denote; the arithmetic of the
  regression formulas is exact in the model. The user data dictionary has the four
  keys that \<open>get_user_data\<close> returns.
\<close>

record user_data =
  age :: int
  height :: real
  weight :: real
  gender :: string

text \<open>The body of the \<open>for count in triaxial_counts\<close> loop before the floor.\<close>

definition ee_per_min :: "user_data \<Rightarrow> real \<Rightarrow> real" where
  "ee_per_min ud count =
     (if gender ud = ''male'' then
        - 106.59251 + (0.40825 * of_int (age ud)) + (0.35249 * weight ud) - (0.22485 * count)
      else if gender ud = ''female'' then
        - 56.09672 + (0.38459 * of_int (age ud)) + (0.16541 * weight ud) - (0.16912 * count)
      else 0)"

text \<open>The loop: \<open>expenditures.append(max(0, ee_per_min))\<close> for each count, in order.\<close>

fun expenditures :: "user_data \<Rightarrow> real list \<Rightarrow> real list" where
  "expenditures ud [] = []"
| "expenditures ud (count # counts) = max 0 (ee_per_min ud count) # expenditures ud counts"


definition calculate_bmr :: "user_data \<Rightarrow> real option" where
  "calculate_bmr ud =
     (if gender ud = ''male'' then
        Some (88.362 + (13.397 * weight ud) + (4.799 * height ud) - (5.677 * of_int (age ud)))
      else if gender ud = ''female'' then
        Some (447.593 + (9.247 * weight ud) + (3.098 * height ud) - (4.330 * of_int (age ud)))
      else None)"

subsection \<open>Triaxial counts (convert_to_triaxial_counts)\<close>

text \<open>
  A row of the data frame: its index entry, a pandas timestamp, as the integer number of
  nanoseconds since the Unix epoch that pandas stores, and the three acceleration columns.
\<close>

record row =
  timestamp :: int
  acc_x :: real
  acc_y :: real
  acc_z :: real

definition vector_magnitude :: "row \<Rightarrow> real" where
  "vector_magnitude r = sqrt ((acc_x r)\<^sup>2 + (acc_y r)\<^sup>2 + (acc_z r)\<^sup>2)"

text \<open>
  \<open>series.resample('15S').sum()\<close> is a call into pandas with the default arguments:
  bins closed and labelled on the left, and \<open>origin='start_day'\<close>, so the bin edges are
  midnight of the first day plus multiples of the frequency. A day is a multiple of 15
  seconds and pandas days start at multiples of 86400 seconds since the Unix epoch, so the
  bin of a timestamp \<open>t\<close> is \<open>t div freq\<close>. The result has one entry for every bin from
  the bin of the earliest timestamp to the bin of the latest one, empty bins included with
  sum 0, and no entry for an empty series.
\<close>

definition epoch_ns :: int where
  "epoch_ns = 15 * 1000000000"

definition resample_sum :: "int \<Rightarrow> (int \<times> real) list \<Rightarrow> real list" where
  "resample_sum freq series =
     (case map fst series of
        [] \<Rightarrow> []
      | t # ts \<Rightarrow>
          (let first_bin = fold min ts t div freq;
               last_bin = fold max ts t div freq
           in map (\<lambda>k. sum_list (map snd (filter (\<lambda>p. fst p div freq = k) series)))
                  [first_bin..last_bin]))"

definition convert_to_triaxial_counts :: "row list \<Rightarrow> real list" where
  "convert_to_triaxial_counts df =
     resample_sum epoch_ns (map (\<lambda>r. (timestamp r, vector_magnitude r)) df)"

section \<open>Sample arrays (the part of numpy that wav2csv.py uses)\<close>

text \<open>
  An array is one-dimensional, or two-dimensional with a column count and its rows (the
  column count is kept apart from the rows because an array of shape \<open>(0, k)\<close> has it
  too). Integer arrays carry their integer dtype and hold Python-style unbounded integers
  that lie in the dtype's range; floating arrays hold the real numbers that the floats
  denote. Arrays of other dtypes (bool, complex, object), for which
  \<open>normalize_audio\<close> falls through to its last line, are outside this type:
  \<open>read_wav_file\<close> produces int16 and int32 arrays only.
\<close>

datatype int_dtype = Int8 | Int16 | Int32 | Int64 | UInt8 | UInt16 | UInt32 | UInt64

datatype float_dtype = Float32 | Float64

datatype 'a nd = Arr1 "'a list" | Arr2 nat "'a list list"

datatype ndarray = IntArray int_dtype "int nd" | FloatArray float_dtype "real nd"

fun iinfo_min :: "int_dtype \<Rightarrow> int" where
  "iinfo_min Int8 = - (2 ^ 7)"
| "iinfo_min Int16 = - (2 ^ 15)"
| "iinfo_min Int32 = - (2 ^ 31)"
| "iinfo_min Int64 = - (2 ^ 63)"
| "iinfo_min UInt8 = 0"
| "iinfo_min UInt16 = 0"
| "iinfo_min UInt32 = 0"
| "iinfo_min UInt64 = 0"

fun iinfo_max :: "int_dtype \<Rightarrow> int" where
  "iinfo_max Int8 = 2 ^ 7 - 1"
| "iinfo_max Int16 = 2 ^ 15 - 1"
| "iinfo_max Int32 = 2 ^ 31 - 1"
| "iinfo_max Int64 = 2 ^ 63 - 1"
| "iinfo_max UInt8 = 2 ^ 8 - 1"
| "iinfo_max UInt16 = 2 ^ 16 - 1"
| "iinfo_max UInt32 = 2 ^ 32 - 1"
| "iinfo_max UInt64 = 2 ^ 64 - 1"

fun elems :: "'a nd \<Rightarrow> 'a list" where
  "elems (Arr1 xs) = xs"
| "elems (Arr2 k rows) = concat rows"

text \<open>Well-formed arrays: rectangular, and integer elements within the dtype.\<close>

fun rectangular :: "'a nd \<Rightarrow> bool" where
  "rectangular (Arr1 xs) = True"
| "rectangular (Arr2 k rows) = list_all (\<lambda>r. length r = k) rows"

fun in_dtype_range :: "ndarray \<Rightarrow> bool" where
  "in_dtype_range (IntArray dt v) = list_all (\<lambda>x. iinfo_min dt \<le> x \<and> x \<le> iinfo_max dt) (elems v)"
| "in_dtype_range (FloatArray fd v) = True"

fun values_of :: "ndarray \<Rightarrow> real list" where
  "values_of (IntArray dt v) = map of_int (elems v)"
| "values_of (FloatArray fd v) = elems v"

fun ndim :: "'a nd \<Rightarrow> nat" where
  "ndim (Arr1 xs) = 1"
| "ndim (Arr2 k rows) = 2"



section \<open>Decoding (read_wav_file in tools/wav2csv.py)\<close>

text \<open>
  What the \<open>wave\<close> module hands to \<open>read_wav_file\<close>: the four header values and the
  bytes that \<open>readframes(n_frames)\<close> returns.
\<close>

record wave_read =
  getnchannels :: nat
  getsampwidth :: nat
  getframerate :: nat
  getnframes :: nat
  readframes :: "8 word list"

record wav_info =
  n_channels :: nat
  sample_width :: nat
  framerate :: nat
  n_frames :: nat
  duration :: real

text \<open>
  Every exception inside \<open>read_wav_file\<close> is caught and raised again as
  \<open>Exception("Error reading WAV file: ...")\<close>; the cause is kept in place of the text.
\<close>

datatype read_cause =
    UnsupportedSampleWidth nat
  | BufferSizeNotMultiple
  | CannotReshape nat nat
  | DivisionByZero

datatype py_error = ErrorReadingWav read_cause | ZeroDivisionError

text \<open>
  \<open>np.frombuffer(frames, dtype)\<close>: the buffer is cut into items of the dtype's size,
  each read in the machine's byte order, taken to be little-endian as in the WAV format.
  A buffer whose size is not a multiple of the item size is a ValueError.
\<close>

fun le_unsigned :: "8 word list \<Rightarrow> nat" where
  "le_unsigned [] = 0"
| "le_unsigned (b # bs) = unat b + 256 * le_unsigned bs"

definition chunks :: "nat \<Rightarrow> 'a list \<Rightarrow> 'a list list" where
  "chunks k xs = map (\<lambda>i. take k (drop (i * k) xs)) [0..<length xs div k]"

definition frombuffer_uint8 :: "8 word list \<Rightarrow> int list" where
  "frombuffer_uint8 buf = map uint buf"

definition frombuffer_int16 :: "8 word list \<Rightarrow> read_cause + int list" where
  "frombuffer_int16 buf =
     (if length buf mod 2 \<noteq> 0 then Inl BufferSizeNotMultiple
      else Inr (map (\<lambda>c. sint (word_of_nat (le_unsigned c) :: 16 word)) (chunks 2 buf)))"

definition frombuffer_int32 :: "8 word list \<Rightarrow> read_cause + int list" where
  "frombuffer_int32 buf =
     (if length buf mod 4 \<noteq> 0 then Inl BufferSizeNotMultiple
      else Inr (map (\<lambda>c. sint (word_of_nat (le_unsigned c) :: 32 word)) (chunks 4 buf)))"

text \<open>
  The branch on the sample width. For one byte per sample the uint8 items are widened to
  int16 and 128 is subtracted (the values stay within int16, so nothing wraps).
\<close>

definition decode_samples :: "nat \<Rightarrow> 8 word list \<Rightarrow> read_cause + (int_dtype \<times> int list)" where
  "decode_samples width buf =
     (if width = 1 then Inr (Int16, map (\<lambda>x. x - 128) (frombuffer_uint8 buf))
      else if width = 2 then
        (case frombuffer_int16 buf of Inl e \<Rightarrow> Inl e | Inr d \<Rightarrow> Inr (Int16, d))
      else if width = 4 then
        (case frombuffer_int32 buf of Inl e \<Rightarrow> Inl e | Inr d \<Rightarrow> Inr (Int32, d))
      else Inl (UnsupportedSampleWidth width))"

text \<open>\<open>data.reshape(-1, n_channels)\<close>, done when there is more than one channel.\<close>

definition reshape_channels :: "nat \<Rightarrow> int list \<Rightarrow> read_cause + int nd" where
  "reshape_channels nch d =
     (if nch > 1 then
        (if length d mod nch \<noteq> 0 then Inl (CannotReshape (length d) nch)
         else Inr (Arr2 nch (chunks nch d)))
      else Inr (Arr1 d))"

definition read_wav_file :: "wave_read \<Rightarrow> py_error + (nat \<times> ndarray \<times> wav_info)" where
  "read_wav_file w =
     (case decode_samples (getsampwidth w) (readframes w) of
        Inl e \<Rightarrow> Inl (ErrorReadingWav e)
      | Inr (dt, d) \<Rightarrow>
          (case reshape_channels (getnchannels w) d of
             Inl e \<Rightarrow> Inl (ErrorReadingWav e)
           | Inr v \<Rightarrow>
               if getframerate w = 0 then Inl (ErrorReadingWav DivisionByZero)
               else Inr (getframerate w, IntArray dt v,
                         \<lparr>n_channels = getnchannels w, sample_width = getsampwidth w,
                          framerate = getframerate w, n_frames = getnframes w,
                          duration = of_nat (getnframes w) / of_nat (getframerate w)\<rparr>)))"

section \<open>Transforming (normalize_audio and mix_to_mono in tools/wav2csv.py)\<close>

text \<open>
  \<open>normalize_audio\<close> converts with \<open>astype(np.float32)\<close>. The conversion to the nearest
  float32 is the parameter \<open>f32\<close>; the identity gives the exact arithmetic. The scalar
  \<open>denom\<close> is a Python float that numpy converts to float32 for the division, and the
  quotient is rounded to float32.
\<close>

definition clip :: "real \<Rightarrow> real \<Rightarrow> real \<Rightarrow> real" where
  "clip x lo hi = min (max x lo) hi"

fun normalize_audio :: "(real \<Rightarrow> real) \<Rightarrow> ndarray \<Rightarrow> ndarray" where
  "normalize_audio f32 (FloatArray fd v) =
     FloatArray Float32 (map_nd (\<lambda>x. clip (f32 x) (- 1) 1) v)"
| "normalize_audio f32 (IntArray dt v) =
     (let denom = of_int (max \<bar>iinfo_min dt\<bar> (iinfo_max dt))
      in FloatArray Float32 (map_nd (\<lambda>x. f32 (f32 (of_int x) / f32 denom)) v))"

text \<open>
  \<open>x.mean(axis=1)\<close>: the sum of a row divided by its length, in exact arithmetic. The
  mean of an integer array is float64, that of a floating array keeps its dtype.
\<close>

definition mean :: "real list \<Rightarrow> real" where
  "mean r = sum_list r / of_nat (length r)"

fun mix_to_mono :: "ndarray \<Rightarrow> ndarray" where
  "mix_to_mono (IntArray dt (Arr1 xs)) = IntArray dt (Arr1 xs)"
| "mix_to_mono (FloatArray fd (Arr1 xs)) = FloatArray fd (Arr1 xs)"
| "mix_to_mono (IntArray dt (Arr2 k rows)) =
     FloatArray Float64 (Arr1 (map (\<lambda>r. mean (map of_int r)) rows))"
| "mix_to_mono (FloatArray fd (Arr2 k rows)) = FloatArray fd (Arr1 (map mean rows))"

section \<open>Serializing (write_csv_minimal in tools/wav2csv.py)\<close>








fun arr_nd :: "ndarray \<Rightarrow> unit nd" where
  "arr_nd (IntArray dt v) = map_nd (\<lambda>_. ()) v"
| "arr_nd (FloatArray fd v) = map_nd (\<lambda>_. ()) v"



section \<open>Batch conversion (tools/batch_wav2csv.py)\<close>

subsection \<open>Path and string functions of the Python library, for POSIX paths\<close>

definition basename :: "string \<Rightarrow> string" where
  "basename p = rev (takeWhile (\<lambda>c. c \<noteq> CHR ''/'') (rev p))"

definition dirpart :: "string \<Rightarrow> string" where
  "dirpart p = rev (dropWhile (\<lambda>c. c \<noteq> CHR ''/'') (rev p))"

text \<open>
  \<open>os.path.splitext\<close>: the extension starts at the last dot of the last path component,
  unless only dots come before it in that component.
\<close>

definition splitext :: "string \<Rightarrow> string \<times> string" where
  "splitext p =
     (let name = basename p;
          ext = rev (takeWhile (\<lambda>c. c \<noteq> CHR ''.'') (rev name));
          stem = take (length name - length ext - 1) name
      in if CHR ''.'' \<in> set name \<and> (\<exists>c \<in> set stem. c \<noteq> CHR ''.'')
         then (dirpart p @ stem, CHR ''.'' # ext) else (p, []))"

definition path_join :: "string \<Rightarrow> string \<Rightarrow> string" where
  "path_join a b =
     (if b \<noteq> [] \<and> hd b = CHR ''/'' then b
      else if a = [] \<or> last a = CHR ''/'' then a @ b
      else a @ ''/'' @ b)"

text \<open>
  \<open>s.replace(old, "")\<close> for a non-empty \<open>old\<close>: the occurrences are removed from left
  to right without overlap; the counter skips the rest of a removed occurrence.
\<close>

fun remove_all :: "string \<Rightarrow> nat \<Rightarrow> string \<Rightarrow> string" where
  "remove_all old k [] = []"
| "remove_all old k (c # cs) =
     (if k > 0 then remove_all old (k - 1) cs
      else if take (length old) (c # cs) = old then remove_all old (length old - 1) cs
      else c # remove_all old 0 cs)"

text \<open>The format \<open>{subject_id:0>3}\<close>: padded on the left with zeros to width 3.\<close>

definition pad3 :: "string \<Rightarrow> string" where
  "pad3 s = replicate (3 - length s) CHR ''0'' @ s"

definition is_space :: "char \<Rightarrow> bool" where
  "is_space c = (c \<in> set [CHR '' '', CHR 0x09, CHR 0x0A, CHR 0x0B, CHR 0x0C, CHR 0x0D])"

definition strip :: "string \<Rightarrow> string" where
  "strip s = rev (dropWhile is_space (rev (dropWhile is_space s)))"

fun split_comma :: "string \<Rightarrow> string list" where
  "split_comma [] = [[]]"
| "split_comma (c # cs) =
     (case split_comma cs of
        [] \<Rightarrow> [[c]]
      | w # ws \<Rightarrow> if c = CHR '','' then [] # w # ws else (c # w) # ws)"

subsection \<open>Options, file system and subprocesses\<close>

record args =
  input_dir :: string
  output_dir :: string
  subjects :: "string option"
  normalize_opt :: bool
  mono :: bool
  verbose :: bool
  dry_run :: bool
  resume :: bool

text \<open>
  The state that the batch run changes: the paths that exist (files and directories
  alike), the log of paths created or written, and the log of the commands that were run
  as subprocesses. Directory creation and the writing of the report are taken to succeed.
\<close>

record world =
  files :: "string set"
  written :: "string list"
  spawned :: "string list list"

text \<open>
  \<open>subprocess.run(cmd, capture_output=True, text=True, timeout=300)\<close> either completes
  with a return code and its captured stderr, or raises: \<open>TimeoutExpired\<close>, or another
  exception (the interpreter cannot be started, for instance).
\<close>

datatype proc_exn = TimeoutExpired | OtherException string

datatype proc_result = Completed int string | Raised proc_exn

text \<open>
  What lies outside the script: the interpreter's path, the behaviour of a subprocess (its
  result and the paths it writes, which may depend on the paths that exist), and the two
  sorted directory listings of \<open>find_hexoskin_directories\<close> and \<open>get_wav_files\<close>.
\<close>

record env =
  sys_executable :: string
  run :: "string list \<Rightarrow> string set \<Rightarrow> proc_result \<times> string list"
  find_hexoskin_directories :: "string \<Rightarrow> string list"
  get_wav_files :: "string \<Rightarrow> string list"

definition path_exists :: "world \<Rightarrow> string \<Rightarrow> bool" where
  "path_exists w p = (p \<in> files w)"

text \<open>\<open>os.makedirs(p, exist_ok=True)\<close> creates the directory and its missing ancestors.\<close>

definition ancestors :: "string \<Rightarrow> string list" where
  "ancestors p = map (\<lambda>i. take i p) (filter (\<lambda>i. p ! i = CHR ''/'') [1..<length p]) @ [p]"

definition makedirs :: "string \<Rightarrow> world \<Rightarrow> world" where
  "makedirs p w =
     (let new = filter (\<lambda>d. d \<notin> files w) (ancestors p)
      in w\<lparr>files := files w \<union> set new, written := written w @ new\<rparr>)"

definition write_file :: "string \<Rightarrow> world \<Rightarrow> world" where
  "write_file p w = w\<lparr>files := insert p (files w), written := written w @ [p]\<rparr>"

definition subprocess_run :: "env \<Rightarrow> string list \<Rightarrow> world \<Rightarrow> proc_result \<times> world" where
  "subprocess_run e cmd w =
     (case run e cmd (files w) of
        (r, ps) \<Rightarrow> (r, w\<lparr>files := files w \<union> set ps, written := written w @ ps,
                         spawned := spawned w @ [cmd]\<rparr>))"

subsection \<open>The script's functions\<close>

definition get_subject_id :: "string \<Rightarrow> string" where
  "get_subject_id hexoskin_dir = remove_all ''hexoskin'' 0 (basename hexoskin_dir)"

definition subject_output_dir_of :: "string \<Rightarrow> string \<Rightarrow> string" where
  "subject_output_dir_of out_dir subject_id = path_join out_dir (pad3 subject_id @ ''hexoskin'')"

definition create_output_structure :: "string \<Rightarrow> string \<Rightarrow> world \<Rightarrow> string \<times> world" where
  "create_output_structure out_dir subject_id w =
     (let subject_output_dir = subject_output_dir_of out_dir subject_id
      in (subject_output_dir, makedirs subject_output_dir w))"

definition output_file_of :: "string \<Rightarrow> string \<Rightarrow> string" where
  "output_file_of wav_file out_dir =
     (let wav_basename = fst (splitext (basename wav_file))
      in path_join out_dir (wav_basename @ ''.csv''))"

text \<open>The command line of the converter for one file (\<open>cmd\<close>).\<close>

definition build_cmd :: "env \<Rightarrow> string \<Rightarrow> string \<Rightarrow> args \<Rightarrow> string list" where
  "build_cmd e wav_file output_file a =
     [sys_executable e, ''wav2csv.py'', wav_file, output_file]
     @ (if normalize_opt a then [''--normalize''] else [])
     @ (if mono a then [''--mono''] else [])"

text \<open>
  The body of the \<open>try\<close> block of \<open>convert_wav_to_csv\<close>: it returns its tuple or raises
  what the subprocess call raises.
\<close>

definition convert_try ::
  "env \<Rightarrow> string \<Rightarrow> string \<Rightarrow> args \<Rightarrow> world \<Rightarrow> (proc_exn + (string \<times> bool \<times> string)) \<times> world" where
  "convert_try e wav_file out_dir a w =
     (let output_file = output_file_of wav_file out_dir
      in if resume a \<and> path_exists w output_file
         then (Inr (wav_file, True, ''Skipped (already exists)''), w)
         else
           (let cmd = build_cmd e wav_file output_file a
            in case subprocess_run e cmd w of
                 (Completed returncode err, w') \<Rightarrow>
                   (if returncode = 0 then (Inr (wav_file, True, ''Success''), w')
                    else (Inr (wav_file, False, ''Error: '' @ strip err), w'))
               | (Raised x, w') \<Rightarrow> (Inl x, w')))"

text \<open>The two \<open>except\<close> clauses turn what was raised into a failed outcome.\<close>

definition convert_wav_to_csv ::
  "env \<Rightarrow> string \<Rightarrow> string \<Rightarrow> args \<Rightarrow> world \<Rightarrow> (string \<times> bool \<times> string) \<times> world" where
  "convert_wav_to_csv e wav_file out_dir a w =
     (case convert_try e wav_file out_dir a w of
        (Inr t, w') \<Rightarrow> (t, w')
      | (Inl TimeoutExpired, w') \<Rightarrow> ((wav_file, False, ''Timeout''), w')
      | (Inl (OtherException msg), w') \<Rightarrow> ((wav_file, False, ''Exception: '' @ msg), w'))"

record file_result =
  wav_file :: string
  success :: bool
  message :: string

record summary =
  total_count :: int
  success_count :: int
  failed_count :: int

record subject_result =
  subject_id :: string
  hexoskin_dir :: string
  wav_files :: "string list"
  results :: "file_result list"
  summary :: summary

text \<open>The loop \<open>for wav_file in wav_files\<close> of \<open>process_subject\<close>, with the results so far.\<close>

fun process_files ::
  "env \<Rightarrow> string \<Rightarrow> args \<Rightarrow> string list \<Rightarrow> file_result list \<Rightarrow> world \<Rightarrow> file_result list \<times> world" where
  "process_files e out_dir a [] acc w = (acc, w)"
| "process_files e out_dir a (f # fs) acc w =
     (if dry_run a then
        process_files e out_dir a fs
          (acc @ [\<lparr>wav_file = f, success = True, message = ''Would process''\<rparr>]) w
      else
        (case convert_wav_to_csv e f out_dir a w of
           ((f', ok, msg), w') \<Rightarrow>
             process_files e out_dir a fs
               (acc @ [\<lparr>wav_file = f', success = ok, message = msg\<rparr>]) w'))"

definition process_subject :: "env \<Rightarrow> string \<Rightarrow> string \<Rightarrow> args \<Rightarrow> world \<Rightarrow> subject_result \<times> world" where
  "process_subject e hdir out_dir a w =
     (let sid = get_subject_id hdir in
      case create_output_structure out_dir sid w of
        (subject_output_dir, w1) \<Rightarrow>
          (let wavs = get_wav_files e hdir in
           if wavs = [] then
             (\<lparr>subject_id = sid, hexoskin_dir = hdir, wav_files = [], results = [],
               summary = \<lparr>total_count = 0, success_count = 0, failed_count = 0\<rparr>\<rparr>, w1)
           else
             (case process_files e subject_output_dir a wavs [] w1 of
                (rs, w2) \<Rightarrow>
                  (let total' = int (length rs);
                       success' = int (length (filter success rs));
                       failed' = total' - success'
                   in (\<lparr>subject_id = sid, hexoskin_dir = hdir, wav_files = wavs, results = rs,
                        summary = \<lparr>total_count = total', success_count = success',
                                   failed_count = failed'\<rparr>\<rparr>, w2)))))"

text \<open>
  \<open>print_summary\<close>: the four totals and the success-rate line, which is the text
  \<open>N/A\<close> when there are no files.
\<close>

datatype rate_line = SuccessRate real | NotApplicable

record summary_lines =
  total_subjects :: int
  total_files :: int
  total_success :: int
  total_failed :: int
  rate :: rate_line

definition print_summary :: "subject_result list \<Rightarrow> summary_lines" where
  "print_summary all_results =
     (let n_subjects = int (length all_results);
          n_files = sum_list (map (\<lambda>r. total_count (summary r)) all_results);
          n_success = sum_list (map (\<lambda>r. success_count (summary r)) all_results);
          n_failed = sum_list (map (\<lambda>r. failed_count (summary r)) all_results)
      in \<lparr>total_subjects = n_subjects, total_files = n_files, total_success = n_success,
          total_failed = n_failed,
          rate = (if n_files > 0 then SuccessRate (of_int n_success / of_int n_files * 100)
                  else NotApplicable)\<rparr>)"

text \<open>The loop \<open>for hexoskin_dir in hexoskin_dirs\<close> of \<open>main\<close>.\<close>

fun process_all ::
  "env \<Rightarrow> args \<Rightarrow> string list \<Rightarrow> subject_result list \<Rightarrow> world \<Rightarrow> subject_result list \<times> world" where
  "process_all e a [] acc w = (acc, w)"
| "process_all e a (d # ds) acc w =
     (case process_subject e d (output_dir a) a w of
        (r, w') \<Rightarrow> process_all e a ds (acc @ [r]) w')"

text \<open>
  The subject filter of \<open>main\<close>: with a non-empty \<open>--subjects\<close> option only the
  directories whose subject identifier is in the comma-separated list are kept.
\<close>

definition filter_subjects :: "args \<Rightarrow> string list \<Rightarrow> string list" where
  "filter_subjects a hexoskin_dirs =
     (case subjects a of
        None \<Rightarrow> hexoskin_dirs
      | Some s \<Rightarrow>
          if s = [] then hexoskin_dirs
          else (let subject_list = map strip (split_comma s)
                in filter (\<lambda>d. get_subject_id d \<in> set subject_list) hexoskin_dirs))"

definition results_file_of :: "args \<Rightarrow> string" where
  "results_file_of a = path_join (output_dir a) ''batch_conversion_results.json''"

text \<open>
  \<open>main\<close> after the command line is parsed: \<open>Inl 1\<close> is \<open>sys.exit(1)\<close>; otherwise the
  results of all subjects, as they are saved in the report, and the state left behind.
\<close>

definition main :: "env \<Rightarrow> args \<Rightarrow> world \<Rightarrow> int + (subject_result list \<times> world)" where
  "main e a w =
     (if \<not> path_exists w (input_dir a) then Inl 1
      else
        (let hexoskin_dirs = find_hexoskin_directories e (input_dir a) in
         if hexoskin_dirs = [] then Inl 1
         else
           (let hexoskin_dirs = filter_subjects a hexoskin_dirs
            in if hexoskin_dirs = [] then Inl 1
               else
                 (let w1 = makedirs (output_dir a) w in
                  case process_all e a hexoskin_dirs [] w1 of
                    (all_results, w2) \<Rightarrow>
                      Inr (all_results, write_file (results_file_of a) w2)))))"

section \<open>Notions used to state the properties\<close>

text \<open>
  The reading of an unsigned value of \<open>bits\<close> bits as signed two's complement, in the
  words of the specification: values below the midpoint stand for themselves, the others
  for themselves minus \<open>2 ^ bits\<close>.
\<close>

definition twos_complement :: "nat \<Rightarrow> int \<Rightarrow> int" where
  "twos_complement bits u = (if u < 2 ^ (bits - 1) then u else u - 2 ^ bits)"

text \<open>The samples of an integer array in storage order (frame by frame).\<close>

fun int_samples :: "ndarray \<Rightarrow> int list" where
  "int_samples (IntArray dt v) = elems v"
| "int_samples (FloatArray fd v) = []"


text \<open>A subprocess result that \<open>convert_wav_to_csv\<close> takes for a success: return code 0.\<close>

fun completed_ok :: "proc_result \<Rightarrow> bool" where
  "completed_ok (Completed returncode err) = (returncode = 0)"
| "completed_ok (Raised x) = False"

text \<open>The outcome that a skipped job and a dry-run job are recorded with.\<close>

definition skipped_outcome :: "string \<Rightarrow> file_result" where
  "skipped_outcome f = \<lparr>wav_file = f, success = True, message = ''Skipped (already exists)''\<rparr>"

definition would_process :: "string \<Rightarrow> file_result" where
  "would_process f = \<lparr>wav_file = f, success = True, message = ''Would process''\<rparr>"

text \<open>The output directory of a subject directory, and the jobs' output files in it.\<close>

definition subject_dir :: "args \<Rightarrow> string \<Rightarrow> string" where
  "subject_dir a hdir = subject_output_dir_of (output_dir a) (get_subject_id hdir)"

text \<open>The subject directories that \<open>main\<close> processes: those found, after the subject filter.\<close>

definition discovered_dirs :: "env \<Rightarrow> args \<Rightarrow> string list" where
  "discovered_dirs e a = filter_subjects a (find_hexoskin_directories e (input_dir a))"

text \<open>
  Running the batch twice with the same options and unchanged inputs: the second run
  starts from the state that the first one leaves.
\<close>

definition run_twice :: "env \<Rightarrow> args \<Rightarrow> world \<Rightarrow> int + (subject_result list \<times> world)" where
  "run_twice e a w = (case main e a w of Inl c \<Rightarrow> Inl c | Inr (rs, w1) \<Rightarrow> main e a w1)"

subsection \<open>A batch of five files, one of which cannot be converted\<close>

text \<open>
  One subject directory with five recordings. The converter fails on \<open>c.wav\<close> with
  return code 1 and writes nothing; on the other files it returns 0 and writes its output
  file.
\<close>

definition example_wavs :: "string list" where
  "example_wavs = [''in/001hexoskin/a.wav'', ''in/001hexoskin/b.wav'', ''in/001hexoskin/c.wav'',
                   ''in/001hexoskin/d.wav'', ''in/001hexoskin/e.wav'']"

definition example_env :: env where
  "example_env =
     \<lparr>sys_executable = ''python3'',
      run = (\<lambda>cmd fs. if cmd ! 2 = ''in/001hexoskin/c.wav'' then (Completed 1 ''bad header'', [])
                       else (Completed 0 [], [cmd ! 3])),
      find_hexoskin_directories = (\<lambda>d. [''in/001hexoskin'']),
      get_wav_files = (\<lambda>d. example_wavs)\<rparr>"

definition example_args :: args where
  "example_args =
     \<lparr>input_dir = ''in'', output_dir = ''out'', subjects = None, normalize_opt = True,
      mono = False, verbose = False, dry_run = False, resume = False\<rparr>"

definition example_world :: world where
  "example_world = \<lparr>files = set [''in''], written = [], spawned = []\<rparr>"

text \<open>
  The same batch with \<open>--resume\<close> and with \<open>--dry-run\<close>, and a converter that succeeds
  on all five files.
\<close>

definition example_resume_args :: args where
  "example_resume_args = example_args\<lparr>resume := True\<rparr>"

definition example_dry_args :: args where
  "example_dry_args = example_args\<lparr>dry_run := True\<rparr>"

definition good_env :: env where
  "good_env = example_env\<lparr>run := \<lambda>cmd fs. (Completed 0 [], [cmd ! 3])\<rparr>"

subsection \<open>Two accelerometer streams\<close>

text \<open>
  Five samples, one every 4.5 seconds (22.5 seconds of recording, one and a half epochs),
  the first of them 14 seconds after a multiple of 15 seconds; and three samples of which
  the first lies on a multiple of 15 seconds and the last 22 seconds later.
\<close>

definition example_stream :: "row list" where
  "example_stream =
     [\<lparr>timestamp = 14000000000, acc_x = 1, acc_y = 0, acc_z = 0\<rparr>,
      \<lparr>timestamp = 18500000000, acc_x = 1, acc_y = 0, acc_z = 0\<rparr>,
      \<lparr>timestamp = 23000000000, acc_x = 1, acc_y = 0, acc_z = 0\<rparr>,
      \<lparr>timestamp = 27500000000, acc_x = 1, acc_y = 0, acc_z = 0\<rparr>,
      \<lparr>timestamp = 32000000000, acc_x = 1, acc_y = 0, acc_z = 0\<rparr>]"

definition aligned_stream :: "row list" where
  "aligned_stream =
     [\<lparr>timestamp = 15000000000, acc_x = 0, acc_y = 1, acc_z = 0\<rparr>,
      \<lparr>timestamp = 25000000000, acc_x = 0, acc_y = 0, acc_z = 1\<rparr>,
      \<lparr>timestamp = 37000000000, acc_x = 1, acc_y = 0, acc_z = 0\<rparr>]"

section \<open>Properties of the energy expenditure\<close>

lemma expenditures_map:
  "expenditures ud counts = map (\<lambda>c. max 0 (ee_per_min ud c)) counts"
  by (induction counts) simp_all


lemma expenditures_nonneg: "e \<in> set (expenditures ud counts) \<Longrightarrow> 0 \<le> e"
  by (auto simp: expenditures_map)



section \<open>Properties of the normalization\<close>

lemma elems_map_nd: "elems (map_nd f v) = map f (elems v)"
  by (cases v) (simp_all add: map_concat)

lemma denom_ge_one: "1 \<le> max \<bar>iinfo_min dt\<bar> (iinfo_max dt)"
  by (cases dt) simp_all

lemma abs_le_denom:
  "iinfo_min dt \<le> x \<Longrightarrow> x \<le> iinfo_max dt \<Longrightarrow> \<bar>x\<bar> \<le> max \<bar>iinfo_min dt\<bar> (iinfo_max dt)"
  by (cases dt) simp_all

lemma clip_bounded: "\<bar>clip x (- 1) 1\<bar> \<le> 1"
  by (simp add: clip_def)

lemma rounded_quotient_bounded:
  fixes f32 :: "real \<Rightarrow> real"
  assumes mono: "\<And>a b. a \<le> b \<Longrightarrow> f32 a \<le> f32 b"
    and odd: "\<And>a. f32 (- a) = - f32 a"
    and one: "f32 1 = 1"
    and d: "1 \<le> d" and x: "\<bar>x\<bar> \<le> d"
  shows "\<bar>f32 (f32 x / f32 d)\<bar> \<le> 1"
proof -
  have d1: "1 \<le> f32 d" using mono [OF d] one by simp
  have up: "f32 x \<le> f32 d" using x by (intro mono) simp
  have "f32 (- d) \<le> f32 x" using x by (intro mono) simp
  then have lo: "- f32 d \<le> f32 x" by (simp add: odd)
  have d0: "0 < f32 d" using d1 by simp
  have qu: "f32 x / f32 d \<le> 1" using d0 up by (simp add: divide_le_eq)
  have ql: "- 1 \<le> f32 x / f32 d" using d0 lo by (simp add: le_divide_eq)
  have a: "f32 (f32 x / f32 d) \<le> 1" using mono [OF qu] one by simp
  have "f32 (- 1) \<le> f32 (f32 x / f32 d)" using ql by (rule mono)
  then have b: "- 1 \<le> f32 (f32 x / f32 d)" by (simp add: odd one)
  from a b show ?thesis by simp
qed

text \<open>
  C1. For every sample array whose integer samples lie in the range of its dtype,
  \<open>normalize_audio\<close> returns a float32 array all of whose values have magnitude at most
  1: floating input is clamped to \<open>[-1, 1]\<close>, and integer input is divided by
  \<open>max(|iinfo.min|, iinfo.max)\<close> of its dtype. The conversion to float32 is any
  function that is monotone, odd and fixes 1 (rounding to nearest is one, the identity
  another), so the bound does not depend on exact arithmetic.
\<close>

theorem normalize_audio_unit_range:
  fixes f32 :: "real \<Rightarrow> real"
  assumes mono: "\<And>a b. a \<le> b \<Longrightarrow> f32 a \<le> f32 b"
    and odd: "\<And>a. f32 (- a) = - f32 a"
    and one: "f32 1 = 1"
    and range: "in_dtype_range arr"
  shows "(\<exists>v. normalize_audio f32 arr = FloatArray Float32 v)
       \<and> (\<forall>y \<in> set (values_of (normalize_audio f32 arr)). \<bar>y\<bar> \<le> 1)
       \<and> (\<forall>fd v. arr = FloatArray fd v \<longrightarrow>
             values_of (normalize_audio f32 arr) = map (\<lambda>x. min (max (f32 x) (- 1)) 1) (elems v))
       \<and> (\<forall>dt v. arr = IntArray dt v \<longrightarrow>
             values_of (normalize_audio f32 arr)
               = map (\<lambda>x. f32 (f32 (of_int x) / f32 (of_int (max \<bar>iinfo_min dt\<bar> (iinfo_max dt)))))
                     (elems v))"
proof (cases arr)
  case (FloatArray fd v)
  then show ?thesis
    by (auto simp: elems_map_nd clip_bounded clip_def)
next
  case (IntArray dt v)
  have b: "\<bar>f32 (f32 (of_int x) / f32 (of_int (max \<bar>iinfo_min dt\<bar> (iinfo_max dt))))\<bar> \<le> 1"
    if "x \<in> set (elems v)" for x
  proof -
    from range IntArray that have "iinfo_min dt \<le> x" "x \<le> iinfo_max dt"
      by (auto simp: list_all_iff)
    then have "\<bar>x\<bar> \<le> max \<bar>iinfo_min dt\<bar> (iinfo_max dt)" by (rule abs_le_denom)
    then have x: "\<bar>real_of_int x\<bar> \<le> real_of_int (max \<bar>iinfo_min dt\<bar> (iinfo_max dt))"
      by (metis of_int_abs of_int_le_iff)
    have d: "1 \<le> real_of_int (max \<bar>iinfo_min dt\<bar> (iinfo_max dt))"
      using denom_ge_one [of dt] by linarith
    show ?thesis by (rule rounded_quotient_bounded [OF mono odd one d x])
  qed
  from IntArray show ?thesis
    by (auto simp: elems_map_nd Let_def dest: b)
qed


theorem normalize_audio_unit_range_witness:
  "in_dtype_range (IntArray Int16 (Arr2 2 [[- 32768, 32767], [0, 128]]))
   \<and> values_of (normalize_audio (\<lambda>x. x) (IntArray Int16 (Arr2 2 [[- 32768, 32767], [0, 128]])))
       = [- 1, 32767 / 32768, 0, 1 / 256]
   \<and> list_all (\<lambda>y. \<bar>y\<bar> \<le> 1)
        (values_of (normalize_audio (\<lambda>x. x) (IntArray Int16 (Arr2 2 [[- 32768, 32767], [0, 128]]))))
   \<and> values_of (normalize_audio (\<lambda>x. x) (FloatArray Float64 (Arr1 [3, - 2, 1 / 4])))
       = [1, - 1, 1 / 4]"
  using normalize_audio_unit_range [of "\<lambda>x. x" "IntArray Int16 (Arr2 2 [[- 32768, 32767], [0, 128]])"]
    normalize_audio_unit_range [of "\<lambda>x. x" "FloatArray Float64 (Arr1 [3, - 2, 1 / 4])"]
  by (simp add: list_all_iff clip_def)

section \<open>Properties of the decoder\<close>

lemma length_chunks: "length (chunks k xs) = length xs div k"
  by (simp add: chunks_def)

lemma nth_chunks: "i < length xs div k \<Longrightarrow> chunks k xs ! i = take k (drop (i * k) xs)"
  by (simp add: chunks_def)

lemma concat_chunks_take:
  "concat (map (\<lambda>i. take k (drop (i * k) xs)) [0..<n]) = take (n * k) xs"
proof (induction n)
  case 0
  show ?case by simp
next
  case (Suc n)
  have "concat (map (\<lambda>i. take k (drop (i * k) xs)) [0..<Suc n])
      = concat (map (\<lambda>i. take k (drop (i * k) xs)) [0..<n]) @ take k (drop (n * k) xs)"
    by simp
  also have "\<dots> = take (n * k) xs @ take k (drop (n * k) xs)"
    by (simp only: Suc.IH)
  also have "\<dots> = take (n * k + k) xs"
    by (rule take_add [symmetric])
  also have "n * k + k = Suc n * k"
    by simp
  finally show ?case .
qed

lemma concat_chunks: "length xs mod k = 0 \<Longrightarrow> concat (chunks k xs) = xs"
proof -
  assume "length xs mod k = 0"
  then have "length xs div k * k = length xs" by (simp add: mod_0_imp_dvd)
  then show ?thesis by (simp add: chunks_def concat_chunks_take)
qed

lemma take2_drop:
  "Suc (2 * i) < length xs \<Longrightarrow> take 2 (drop (i * 2) xs) = [xs ! (2 * i), xs ! Suc (2 * i)]"
  by (simp add: numeral_2_eq_2 take_Suc_conv_app_nth mult.commute)

lemma sint16_twos:
  "0 \<le> u \<Longrightarrow> u < 2 ^ 16 \<Longrightarrow> sint (word_of_int u :: 16 word) = twos_complement 16 u"
proof -
  assume u: "0 \<le> u" "u < 2 ^ 16"
  show ?thesis
  proof (cases "u < 2 ^ 15")
    case True
    with u have "(u + 2 ^ 15) mod 2 ^ 16 = u + 2 ^ 15" by simp
    with True show ?thesis by (simp add: int_word_sint twos_complement_def)
  next
    case False
    have "(u + 2 ^ 15) mod 2 ^ 16 = u - 2 ^ 15"
      using u False by (intro int_mod_pos_eq [where q = 1]) simp_all
    then show ?thesis using False by (simp add: int_word_sint twos_complement_def)
  qed
qed


lemma sint32_twos:
  "0 \<le> u \<Longrightarrow> u < 2 ^ 32 \<Longrightarrow> sint (word_of_int u :: 32 word) = twos_complement 32 u"
proof -
  assume u: "0 \<le> u" "u < 2 ^ 32"
  show ?thesis
  proof (cases "u < 2 ^ 31")
    case True
    with u have "(u + 2 ^ 31) mod 2 ^ 32 = u + 2 ^ 31" by simp
    with True show ?thesis by (simp add: int_word_sint twos_complement_def)
  next
    case False
    have "(u + 2 ^ 31) mod 2 ^ 32 = u - 2 ^ 31"
      using u False by (intro int_mod_pos_eq [where q = 1]) simp_all
    then show ?thesis using False by (simp add: int_word_sint twos_complement_def)
  qed
qed

lemma take4_drop:
  "4 * i + 3 < length xs \<Longrightarrow>
   take 4 (drop (i * 4) xs) = [xs ! (4 * i), xs ! (4 * i + 1), xs ! (4 * i + 2), xs ! (4 * i + 3)]"
proof -
  assume a: "4 * i + 3 < length xs"
  have "take 4 (drop (i * 4) xs) = take (Suc (Suc (Suc (Suc 0)))) (drop (4 * i) xs)"
    by (simp add: mult.commute numeral_eq_Suc)
  also have "\<dots> = [xs ! (4 * i), xs ! (4 * i + 1), xs ! (4 * i + 2), xs ! (4 * i + 3)]"
    using a by (simp add: take_Suc_conv_app_nth numeral_3_eq_3 numeral_2_eq_2)
  finally show ?thesis .
qed


lemma uint_byte_bounds: "0 \<le> uint (b :: 8 word) \<and> uint b < 256"
  using uint_bounded [of b] by simp

lemma le16_value:
  "sint (word_of_nat (le_unsigned [b0, b1]) :: 16 word) = twos_complement 16 (uint b0 + 256 * uint b1)"
proof -
  have "(word_of_nat (le_unsigned [b0, b1]) :: 16 word) = word_of_int (uint b0 + 256 * uint b1)"
    by (simp add: word_of_int_nat [symmetric] del: word_of_nat_eq_iff)
  moreover have "0 \<le> uint b0 + 256 * uint b1" "uint b0 + 256 * uint b1 < 2 ^ 16"
    using uint_byte_bounds [of b0] uint_byte_bounds [of b1] by simp_all
  ultimately show ?thesis by (simp only: sint16_twos)
qed

lemma le32_value:
  "sint (word_of_nat (le_unsigned [b0, b1, b2, b3]) :: 32 word)
     = twos_complement 32 (uint b0 + 256 * uint b1 + 65536 * uint b2 + 16777216 * uint b3)"
proof -
  have "(word_of_nat (le_unsigned [b0, b1, b2, b3]) :: 32 word)
      = word_of_int (uint b0 + 256 * uint b1 + 65536 * uint b2 + 16777216 * uint b3)"
    by (simp add: word_of_int_nat [symmetric] del: word_of_nat_eq_iff)
  moreover have "0 \<le> uint b0 + 256 * uint b1 + 65536 * uint b2 + 16777216 * uint b3"
    "uint b0 + 256 * uint b1 + 65536 * uint b2 + 16777216 * uint b3 < 2 ^ 32"
    using uint_byte_bounds [of b0] uint_byte_bounds [of b1] uint_byte_bounds [of b2]
      uint_byte_bounds [of b3] by simp_all
  ultimately show ?thesis by (simp only: sint32_twos)
qed


lemma reshape_channels_elems: "reshape_channels nch d = Inr v \<Longrightarrow> elems v = d"
  by (auto simp: reshape_channels_def concat_chunks split: if_splits)

lemma read_wav_file_Inr:
  assumes "read_wav_file w = Inr (sr, arr, info)"
  shows "\<exists>dt. decode_samples (getsampwidth w) (readframes w) = Inr (dt, int_samples arr)"
proof -
  from assms obtain dt d v where d: "decode_samples (getsampwidth w) (readframes w) = Inr (dt, d)"
    and v: "reshape_channels (getnchannels w) d = Inr v" and arr: "arr = IntArray dt v"
    by (auto simp: read_wav_file_def split: sum.splits if_splits)
  from v have "elems v = d" by (rule reshape_channels_elems)
  with d arr show ?thesis by auto
qed

lemma decode_width1:
  "decode_samples 1 buf = Inr (dt, d) \<Longrightarrow> d = map (\<lambda>b. uint b - 128) buf"
  by (auto simp: decode_samples_def frombuffer_uint8_def)

lemma decode_width2:
  assumes "decode_samples 2 buf = Inr (dt, d)"
  shows "2 * length d = length buf"
    and "i < length d \<Longrightarrow> d ! i = twos_complement 16 (uint (buf ! (2 * i)) + 256 * uint (buf ! (2 * i + 1)))"
proof -
  from assms have even: "length buf mod 2 = 0"
    and d: "d = map (\<lambda>c. sint (word_of_nat (le_unsigned c) :: 16 word)) (chunks 2 buf)"
    by (auto simp: decode_samples_def frombuffer_int16_def split: if_splits)
  from d have len: "length d = length buf div 2" by (simp add: length_chunks)
  with even show "2 * length d = length buf" by presburger
  assume i: "i < length d"
  with len even have "Suc (2 * i) < length buf" by presburger
  then have "chunks 2 buf ! i = [buf ! (2 * i), buf ! Suc (2 * i)]"
    using i len by (simp add: nth_chunks take2_drop)
  with i len d show "d ! i = twos_complement 16 (uint (buf ! (2 * i)) + 256 * uint (buf ! (2 * i + 1)))"
    by (simp add: length_chunks le16_value del: le_unsigned.simps)
qed

lemma decode_width4:
  assumes "decode_samples 4 buf = Inr (dt, d)"
  shows "4 * length d = length buf"
    and "i < length d \<Longrightarrow> d ! i = twos_complement 32
           (uint (buf ! (4 * i)) + 256 * uint (buf ! (4 * i + 1))
            + 65536 * uint (buf ! (4 * i + 2)) + 16777216 * uint (buf ! (4 * i + 3)))"
proof -
  from assms have m: "length buf mod 4 = 0"
    and d: "d = map (\<lambda>c. sint (word_of_nat (le_unsigned c) :: 32 word)) (chunks 4 buf)"
    by (auto simp: decode_samples_def frombuffer_int32_def split: if_splits)
  from d have len: "length d = length buf div 4" by (simp add: length_chunks)
  with m show "4 * length d = length buf" by presburger
  assume i: "i < length d"
  with len m have "4 * i + 3 < length buf" by presburger
  then have "chunks 4 buf ! i = [buf ! (4 * i), buf ! (4 * i + 1), buf ! (4 * i + 2), buf ! (4 * i + 3)]"
    using i len by (simp add: nth_chunks take4_drop)
  with i len d show "d ! i = twos_complement 32
           (uint (buf ! (4 * i)) + 256 * uint (buf ! (4 * i + 1))
            + 65536 * uint (buf ! (4 * i + 2)) + 16777216 * uint (buf ! (4 * i + 3)))"
    by (simp add: length_chunks le32_value del: le_unsigned.simps)
qed

text \<open>
  C3. Whenever \<open>read_wav_file\<close> returns, the samples of its array are, for a sample
  width of one byte, the unsigned bytes minus 128 (so the byte 128 decodes to 0), and for
  widths of two and four bytes the little-endian items read as signed two's complement,
  with nothing subtracted.
\<close>

theorem read_wav_file_sample_decoding:
  assumes "read_wav_file w = Inr (sr, arr, info)"
  shows "(getsampwidth w = 1 \<longrightarrow>
            int_samples arr = map (\<lambda>b. uint b - 128) (readframes w))
       \<and> (getsampwidth w = 2 \<longrightarrow>
            2 * length (int_samples arr) = length (readframes w)
            \<and> (\<forall>i < length (int_samples arr).
                 int_samples arr ! i
                   = twos_complement 16 (uint (readframes w ! (2 * i))
                                         + 256 * uint (readframes w ! (2 * i + 1)))))
       \<and> (getsampwidth w = 4 \<longrightarrow>
            4 * length (int_samples arr) = length (readframes w)
            \<and> (\<forall>i < length (int_samples arr).
                 int_samples arr ! i
                   = twos_complement 32 (uint (readframes w ! (4 * i))
                                         + 256 * uint (readframes w ! (4 * i + 1))
                                         + 65536 * uint (readframes w ! (4 * i + 2))
                                         + 16777216 * uint (readframes w ! (4 * i + 3)))))"
proof -
  from assms obtain dt where
    d: "decode_samples (getsampwidth w) (readframes w) = Inr (dt, int_samples arr)"
    using read_wav_file_Inr by blast
  have one: "getsampwidth w = 1 \<longrightarrow> int_samples arr = map (\<lambda>b. uint b - 128) (readframes w)"
    using d decode_width1 by auto
  have two: "getsampwidth w = 2 \<longrightarrow>
            2 * length (int_samples arr) = length (readframes w)
            \<and> (\<forall>i < length (int_samples arr).
                 int_samples arr ! i
                   = twos_complement 16 (uint (readframes w ! (2 * i))
                                         + 256 * uint (readframes w ! (2 * i + 1))))"
    using d decode_width2 [of "readframes w" dt "int_samples arr"] by auto
  have four: "getsampwidth w = 4 \<longrightarrow>
            4 * length (int_samples arr) = length (readframes w)
            \<and> (\<forall>i < length (int_samples arr).
                 int_samples arr ! i
                   = twos_complement 32 (uint (readframes w ! (4 * i))
                                         + 256 * uint (readframes w ! (4 * i + 1))
                                         + 65536 * uint (readframes w ! (4 * i + 2))
                                         + 16777216 * uint (readframes w ! (4 * i + 3))))"
    using d decode_width4 [of "readframes w" dt "int_samples arr"] by auto
  from one two four show ?thesis by blast
qed

theorem read_wav_file_sample_decoding_witness:
  "read_wav_file \<lparr>getnchannels = 1, getsampwidth = 1, getframerate = 8000, getnframes = 3,
                   readframes = [128, 0, 255]\<rparr>
     = Inr (8000, IntArray Int16 (Arr1 [0, - 128, 127]),
            \<lparr>n_channels = 1, sample_width = 1, framerate = 8000, n_frames = 3,
             duration = 3 / 8000\<rparr>)
   \<and> int_samples (IntArray Int16 (Arr1 [0, - 128, 127]))
       = map (\<lambda>b. uint b - 128) [128, 0, 255 :: 8 word]
   \<and> read_wav_file \<lparr>getnchannels = 2, getsampwidth = 2, getframerate = 8000, getnframes = 1,
                     readframes = [128, 0, 0, 128]\<rparr>
     = Inr (8000, IntArray Int16 (Arr2 2 [[128, - 32768]]),
            \<lparr>n_channels = 2, sample_width = 2, framerate = 8000, n_frames = 1,
             duration = 1 / 8000\<rparr>)
   \<and> int_samples (IntArray Int16 (Arr2 2 [[128, - 32768]])) ! 1
       = twos_complement 16 (uint (128 :: 8 word) * 256)
   \<and> read_wav_file \<lparr>getnchannels = 1, getsampwidth = 4, getframerate = 8000, getnframes = 1,
                     readframes = [128, 0, 0, 0]\<rparr>
     = Inr (8000, IntArray Int32 (Arr1 [128]),
            \<lparr>n_channels = 1, sample_width = 4, framerate = 8000, n_frames = 1,
             duration = 1 / 8000\<rparr>)
   \<and> int_samples (IntArray Int32 (Arr1 [128])) ! 0 = twos_complement 32 (uint (128 :: 8 word))"
  using read_wav_file_sample_decoding [of
      "\<lparr>getnchannels = 1, getsampwidth = 1, getframerate = 8000, getnframes = 3,
        readframes = [128, 0, 255]\<rparr>" 8000 "IntArray Int16 (Arr1 [0, - 128, 127])"
      "\<lparr>n_channels = 1, sample_width = 1, framerate = 8000, n_frames = 3, duration = 3 / 8000\<rparr>"]
    read_wav_file_sample_decoding [of
      "\<lparr>getnchannels = 2, getsampwidth = 2, getframerate = 8000, getnframes = 1,
        readframes = [128, 0, 0, 128]\<rparr>" 8000 "IntArray Int16 (Arr2 2 [[128, - 32768]])"
      "\<lparr>n_channels = 2, sample_width = 2, framerate = 8000, n_frames = 1, duration = 1 / 8000\<rparr>"]
    read_wav_file_sample_decoding [of
      "\<lparr>getnchannels = 1, getsampwidth = 4, getframerate = 8000, getnframes = 1,
        readframes = [128, 0, 0, 0]\<rparr>" 8000 "IntArray Int32 (Arr1 [128])"
      "\<lparr>n_channels = 1, sample_width = 4, framerate = 8000, n_frames = 1, duration = 1 / 8000\<rparr>"]
  by (simp add: read_wav_file_def decode_samples_def reshape_channels_def frombuffer_uint8_def
      frombuffer_int16_def frombuffer_int32_def chunks_def twos_complement_def)

section \<open>Properties of the mono mix\<close>

lemma mean_replicate: "0 < N \<Longrightarrow> mean (replicate N v) = v"
  by (simp add: mean_def sum_list_replicate)

lemma mean_constant_rows:
  assumes "0 < N" and "\<forall>r \<in> set rows. r = replicate N v"
  shows "map mean rows = replicate (length rows) v"
  using assms by (induction rows) (simp_all add: mean_replicate)

lemma mean_constant_int_rows:
  assumes "0 < N" and "\<forall>r \<in> set rows. r = replicate N c"
  shows "map (\<lambda>r. mean (map of_int r)) rows = replicate (length rows) (of_int c)"
  using assms by (induction rows) (simp_all add: mean_replicate)

text \<open>
  C9. \<open>mix_to_mono\<close> returns a one-dimensional (single-channel) array unchanged; of a
  two-dimensional array it takes, frame by frame, the sum over the channels divided by
  their number; and an \<open>N\<close>-channel signal (\<open>N > 0\<close>) whose channels all hold the value
  \<open>v\<close> at every frame yields the single channel that holds \<open>v\<close> at every frame. The
  arithmetic of the mean is exact.
\<close>

theorem mix_to_mono_mean:
  "(ndim (arr_nd arr) = 1 \<longrightarrow> mix_to_mono arr = arr)
   \<and> mix_to_mono (FloatArray fd (Arr2 N rows))
       = FloatArray fd (Arr1 (map (\<lambda>r. sum_list r / of_nat (length r)) rows))
   \<and> mix_to_mono (IntArray dt (Arr2 N irows))
       = FloatArray Float64 (Arr1 (map (\<lambda>r. (\<Sum>x\<leftarrow>r. of_int x) / of_nat (length r)) irows))
   \<and> (0 < N \<and> (\<forall>r \<in> set rows. r = replicate N v) \<longrightarrow>
        mix_to_mono (FloatArray fd (Arr2 N rows)) = FloatArray fd (Arr1 (replicate (length rows) v)))
   \<and> (0 < N \<and> (\<forall>r \<in> set irows. r = replicate N c) \<longrightarrow>
        mix_to_mono (IntArray dt (Arr2 N irows))
          = FloatArray Float64 (Arr1 (replicate (length irows) (of_int c))))"
proof -
  have id1: "ndim (arr_nd arr) = 1 \<longrightarrow> mix_to_mono arr = arr"
  proof (cases arr)
    case (IntArray dt' v')
    then show ?thesis by (cases v') simp_all
  next
    case (FloatArray fd' v')
    then show ?thesis by (cases v') simp_all
  qed
  have f: "mix_to_mono (FloatArray fd (Arr2 N rows))
       = FloatArray fd (Arr1 (map (\<lambda>r. sum_list r / of_nat (length r)) rows))"
    by (simp add: mean_def)
  have i: "mix_to_mono (IntArray dt (Arr2 N irows))
       = FloatArray Float64 (Arr1 (map (\<lambda>r. (\<Sum>x\<leftarrow>r. of_int x) / of_nat (length r)) irows))"
    by (simp add: mean_def)
  have cf: "0 < N \<and> (\<forall>r \<in> set rows. r = replicate N v) \<longrightarrow>
        mix_to_mono (FloatArray fd (Arr2 N rows)) = FloatArray fd (Arr1 (replicate (length rows) v))"
    using mean_constant_rows [of N rows v] by simp
  have ci: "0 < N \<and> (\<forall>r \<in> set irows. r = replicate N c) \<longrightarrow>
        mix_to_mono (IntArray dt (Arr2 N irows))
          = FloatArray Float64 (Arr1 (replicate (length irows) (of_int c)))"
    using mean_constant_int_rows [of N irows c] by simp
  from id1 f i cf ci show ?thesis by blast
qed

theorem mix_to_mono_mean_witness:
  "ndim (arr_nd (IntArray Int16 (Arr1 [3, - 4]))) = 1
   \<and> mix_to_mono (IntArray Int16 (Arr1 [3, - 4])) = IntArray Int16 (Arr1 [3, - 4])
   \<and> list_all (\<lambda>r. r = replicate 3 (1 / 2)) [[1 / 2, 1 / 2, 1 / 2], [1 / 2, 1 / 2, 1 / 2 :: real]]
   \<and> mix_to_mono (FloatArray Float32 (Arr2 3 [[1 / 2, 1 / 2, 1 / 2], [1 / 2, 1 / 2, 1 / 2]]))
       = FloatArray Float32 (Arr1 [1 / 2, 1 / 2])
   \<and> list_all (\<lambda>r. r = replicate 2 7) [[7, 7], [7, 7], [7, 7 :: int]]
   \<and> mix_to_mono (IntArray Int16 (Arr2 2 [[7, 7], [7, 7], [7, 7]]))
       = FloatArray Float64 (Arr1 [7, 7, 7])"
  using mix_to_mono_mean [of "IntArray Int16 (Arr1 [3, - 4])" Float32 3
      "[[1 / 2, 1 / 2, 1 / 2], [1 / 2, 1 / 2, 1 / 2]]" Int16 "[[7, 7], [7, 7], [7, 7]]" "1 / 2" 7]
  by (simp add: numeral_eq_Suc)

section \<open>Properties of the serializer\<close>














section \<open>Properties of the batch conversion\<close>

lemma convert_wav_file: "fst (fst (convert_wav_to_csv e f od a w)) = f"
  by (auto simp: convert_wav_to_csv_def convert_try_def Let_def subprocess_run_def
      split: prod.splits sum.splits proc_result.splits proc_exn.splits if_splits)

lemma convert_skipped:
  "resume a \<Longrightarrow> path_exists w (output_file_of f od) \<Longrightarrow>
   convert_wav_to_csv e f od a w = ((f, True, ''Skipped (already exists)''), w)"
  by (simp add: convert_wav_to_csv_def convert_try_def)

lemma convert_not_skipped:
  assumes "\<not> (resume a \<and> path_exists w (output_file_of f od))"
    and "run e (build_cmd e f (output_file_of f od) a) (files w) = (r, ps)"
  shows "convert_wav_to_csv e f od a w =
     ((f, completed_ok r,
       (case r of
          Completed rc err \<Rightarrow> if rc = 0 then ''Success'' else ''Error: '' @ strip err
        | Raised TimeoutExpired \<Rightarrow> ''Timeout''
        | Raised (OtherException msg) \<Rightarrow> ''Exception: '' @ msg)),
      w\<lparr>files := files w \<union> set ps, written := written w @ ps,
        spawned := spawned w @ [build_cmd e f (output_file_of f od) a]\<rparr>)"
  using assms
  by (auto simp: convert_wav_to_csv_def convert_try_def Let_def subprocess_run_def
      split: proc_result.splits proc_exn.splits)

lemma process_files_acc:
  "fst (process_files e od a fs acc w) = acc @ fst (process_files e od a fs [] w)
   \<and> snd (process_files e od a fs acc w) = snd (process_files e od a fs [] w)"
proof (induction fs arbitrary: acc w)
  case Nil
  show ?case by simp
next
  case (Cons f fs)
  show ?case
  proof (cases "dry_run a")
    case True
    then show ?thesis
      using Cons [of "acc @ [\<lparr>wav_file = f, success = True, message = ''Would process''\<rparr>]" w]
        Cons [of "[\<lparr>wav_file = f, success = True, message = ''Would process''\<rparr>]" w]
      by simp
  next
    case False
    obtain f' ok msg w' where c: "convert_wav_to_csv e f od a w = ((f', ok, msg), w')"
      by (metis prod.collapse)
    with False show ?thesis
      using Cons [of "acc @ [\<lparr>wav_file = f', success = ok, message = msg\<rparr>]" w']
        Cons [of "[\<lparr>wav_file = f', success = ok, message = msg\<rparr>]" w']
      by simp
  qed
qed

lemma process_files_wav_files:
  "map wav_file (fst (process_files e od a fs [] w)) = fs"
proof (induction fs arbitrary: w)
  case Nil
  show ?case by simp
next
  case (Cons f fs)
  show ?case
  proof (cases "dry_run a")
    case True
    then show ?thesis
      using Cons [of w]
        process_files_acc [of e od a fs "[\<lparr>wav_file = f, success = True, message = ''Would process''\<rparr>]" w]
      by simp
  next
    case False
    obtain f' ok msg w' where c: "convert_wav_to_csv e f od a w = ((f', ok, msg), w')"
      by (metis prod.collapse)
    then have "f' = f" using convert_wav_file [of e f od a w] by simp
    with False c show ?thesis
      using Cons [of w']
        process_files_acc [of e od a fs "[\<lparr>wav_file = f', success = ok, message = msg\<rparr>]" w']
      by simp
  qed
qed

lemma process_files_dry_run:
  "dry_run a \<Longrightarrow> process_files e od a fs acc w = (acc @ map would_process fs, w)"
  by (induction fs arbitrary: acc) (simp_all add: would_process_def)

lemma build_cmd_wav: "build_cmd e f out a ! 2 = f"
  by (simp add: build_cmd_def numeral_2_eq_2)

lemma process_files_success:
  assumes nd: "\<not> dry_run a" and nr: "\<not> resume a"
    and H: "\<forall>cmd fs. completed_ok (fst (run e cmd fs)) = (cmd ! 2 \<notin> bad)"
  shows "map success (fst (process_files e od a fs [] w)) = map (\<lambda>f. f \<notin> bad) fs"
proof (induction fs arbitrary: w)
  case Nil
  show ?case by simp
next
  case (Cons f fs)
  obtain r ps where rp: "run e (build_cmd e f (output_file_of f od) a) (files w) = (r, ps)"
    by (metis prod.collapse)
  have ok: "completed_ok r = (f \<notin> bad)"
    using H rp build_cmd_wav [of e f "output_file_of f od" a]
    by (metis fst_conv)
  from convert_not_skipped [OF _ rp] nr obtain msg w' where
    c: "convert_wav_to_csv e f od a w = ((f, completed_ok r, msg), w')"
    by blast
  show ?case
    using nd c ok Cons [of w']
      process_files_acc [of e od a fs "[\<lparr>wav_file = f, success = completed_ok r, message = msg\<rparr>]" w']
    by simp
qed

lemma length_filter_success:
  "length (filter success rs) = length (filter id (map success rs))"
  by (induction rs) simp_all

lemma length_filter_comp: "length (filter id (map P xs)) = length (filter P xs)"
  by (induction xs) simp_all

lemma length_filter_split:
  "int (length xs) - int (length (filter P xs)) = int (length (filter (\<lambda>x. \<not> P x) xs))"
  using sum_length_filter_compl [of P xs] by simp

lemma process_subject_results:
  "results (fst (process_subject e h od a w))
     = fst (process_files e (subject_output_dir_of od (get_subject_id h)) a (get_wav_files e h) []
             (makedirs (subject_output_dir_of od (get_subject_id h)) w))"
  by (simp add: process_subject_def create_output_structure_def Let_def split: prod.splits)

lemma process_subject_summary:
  "summary (fst (process_subject e h od a w))
     = \<lparr>total_count = int (length (results (fst (process_subject e h od a w)))),
        success_count = int (length (filter success (results (fst (process_subject e h od a w))))),
        failed_count = int (length (results (fst (process_subject e h od a w))))
          - int (length (filter success (results (fst (process_subject e h od a w)))))\<rparr>"
  by (simp add: process_subject_def create_output_structure_def Let_def split: prod.splits)

lemma process_subject_wav_files:
  "map wav_file (results (fst (process_subject e h od a w))) = get_wav_files e h"
  by (simp add: process_subject_results process_files_wav_files)

lemma example_main_run:
  "\<not> isl (main example_env example_args example_world)"
  "map (\<lambda>r. length (results r)) (fst (projr (main example_env example_args example_world))) = [5]"
  by code_simp+

text \<open>
  C4. Whatever the conversion of a file does (a non-zero return code, a timeout, any other
  exception of the subprocess call), \<open>convert_wav_to_csv\<close> returns an outcome for that
  file, and a conversion that did not complete with return code 0 is recorded as a failure
  with a non-empty message. The subject's results list every discovered file, in order,
  so a failure never removes the jobs after it; when the files in \<open>bad\<close> are those whose
  conversion fails, exactly they are recorded as failed and all others as successful.
\<close>

theorem job_errors_recorded:
  "fst (fst (convert_wav_to_csv e f sd a w)) = f
   \<and> (\<not> (resume a \<and> path_exists w (output_file_of f sd))
        \<and> \<not> completed_ok (fst (run e (build_cmd e f (output_file_of f sd) a) (files w)))
      \<longrightarrow> (\<exists>msg w'. convert_wav_to_csv e f sd a w = ((f, False, msg), w') \<and> msg \<noteq> []))
   \<and> map wav_file (results (fst (process_subject e h od a w))) = get_wav_files e h
   \<and> total_count (summary (fst (process_subject e h od a w))) = int (length (get_wav_files e h))
   \<and> (\<not> dry_run a \<and> \<not> resume a
        \<and> (\<forall>cmd fs. completed_ok (fst (run e cmd fs)) = (cmd ! 2 \<notin> bad))
      \<longrightarrow> map success (results (fst (process_subject e h od a w)))
            = map (\<lambda>f. f \<notin> bad) (get_wav_files e h)
          \<and> success_count (summary (fst (process_subject e h od a w)))
            = int (length (filter (\<lambda>f. f \<notin> bad) (get_wav_files e h)))
          \<and> failed_count (summary (fst (process_subject e h od a w)))
            = int (length (filter (\<lambda>f. f \<in> bad) (get_wav_files e h))))"
proof -
  let ?r = "fst (process_subject e h od a w)"
  have one: "fst (fst (convert_wav_to_csv e f sd a w)) = f"
    by (rule convert_wav_file)
  have two: "\<not> (resume a \<and> path_exists w (output_file_of f sd))
        \<and> \<not> completed_ok (fst (run e (build_cmd e f (output_file_of f sd) a) (files w)))
      \<longrightarrow> (\<exists>msg w'. convert_wav_to_csv e f sd a w = ((f, False, msg), w') \<and> msg \<noteq> [])"
  proof
    assume h: "\<not> (resume a \<and> path_exists w (output_file_of f sd))
        \<and> \<not> completed_ok (fst (run e (build_cmd e f (output_file_of f sd) a) (files w)))"
    obtain r ps where rp: "run e (build_cmd e f (output_file_of f sd) a) (files w) = (r, ps)"
      by (metis prod.collapse)
    with h have bad: "\<not> completed_ok r" by simp
    have "(case r of
          Completed rc err \<Rightarrow> if rc = 0 then ''Success'' else ''Error: '' @ strip err
        | Raised TimeoutExpired \<Rightarrow> ''Timeout''
        | Raised (OtherException msg) \<Rightarrow> ''Exception: '' @ msg) \<noteq> []"
      by (simp split: proc_result.splits proc_exn.splits)
    with convert_not_skipped [OF _ rp] h bad
    show "\<exists>msg w'. convert_wav_to_csv e f sd a w = ((f, False, msg), w') \<and> msg \<noteq> []"
      by simp
  qed
  have three: "map wav_file (results ?r) = get_wav_files e h"
    by (rule process_subject_wav_files)
  have len: "length (results ?r) = length (get_wav_files e h)"
    using three by (metis length_map)
  have four: "total_count (summary ?r) = int (length (get_wav_files e h))"
    using len by (simp add: process_subject_summary)
  have five: "\<not> dry_run a \<and> \<not> resume a
        \<and> (\<forall>cmd fs. completed_ok (fst (run e cmd fs)) = (cmd ! 2 \<notin> bad))
      \<longrightarrow> map success (results ?r) = map (\<lambda>f. f \<notin> bad) (get_wav_files e h)
          \<and> success_count (summary ?r) = int (length (filter (\<lambda>f. f \<notin> bad) (get_wav_files e h)))
          \<and> failed_count (summary ?r) = int (length (filter (\<lambda>f. f \<in> bad) (get_wav_files e h)))"
  proof
    assume h: "\<not> dry_run a \<and> \<not> resume a
        \<and> (\<forall>cmd fs. completed_ok (fst (run e cmd fs)) = (cmd ! 2 \<notin> bad))"
    then have s: "map success (results ?r) = map (\<lambda>f. f \<notin> bad) (get_wav_files e h)"
      by (simp add: process_subject_results process_files_success)
    have sc: "length (filter success (results ?r))
        = length (filter (\<lambda>f. f \<notin> bad) (get_wav_files e h))"
      by (simp add: length_filter_success s length_filter_comp)
    have "success_count (summary ?r) = int (length (filter (\<lambda>f. f \<notin> bad) (get_wav_files e h)))"
      using sc by (simp add: process_subject_summary)
    moreover have "failed_count (summary ?r)
        = int (length (filter (\<lambda>f. f \<in> bad) (get_wav_files e h)))"
      using sc len length_filter_split [of "get_wav_files e h" "\<lambda>f. f \<notin> bad"]
      by (simp add: process_subject_summary)
    ultimately show "map success (results ?r) = map (\<lambda>f. f \<notin> bad) (get_wav_files e h)
          \<and> success_count (summary ?r) = int (length (filter (\<lambda>f. f \<notin> bad) (get_wav_files e h)))
          \<and> failed_count (summary ?r) = int (length (filter (\<lambda>f. f \<in> bad) (get_wav_files e h)))"
      using s by simp
  qed
  from one two three four five show ?thesis by blast
qed

theorem job_errors_recorded_witness:
  "\<not> dry_run example_args \<and> \<not> resume example_args
   \<and> \<not> isl (main example_env example_args example_world)
   \<and> map (\<lambda>r. length (results r)) (fst (projr (main example_env example_args example_world)))
       = [5]
   \<and> (\<forall>cmd fs. completed_ok (fst (run example_env cmd fs)) = (cmd ! 2 \<notin> {''in/001hexoskin/c.wav''}))
   \<and> \<not> completed_ok (fst (run example_env
          (build_cmd example_env ''in/001hexoskin/c.wav''
             (output_file_of ''in/001hexoskin/c.wav'' ''out/001hexoskin'') example_args)
          (files example_world)))
   \<and> (\<exists>msg w'. convert_wav_to_csv example_env ''in/001hexoskin/c.wav'' ''out/001hexoskin''
                   example_args example_world = ((''in/001hexoskin/c.wav'', False, msg), w')
                 \<and> msg \<noteq> [])
   \<and> map wav_file (results (fst (process_subject example_env ''in/001hexoskin'' ''out''
                                    example_args example_world))) = example_wavs
   \<and> map success (results (fst (process_subject example_env ''in/001hexoskin'' ''out''
                                   example_args example_world)))
       = [True, True, False, True, True]
   \<and> total_count (summary (fst (process_subject example_env ''in/001hexoskin'' ''out''
                                   example_args example_world))) = 5
   \<and> success_count (summary (fst (process_subject example_env ''in/001hexoskin'' ''out''
                                     example_args example_world))) = 4
   \<and> failed_count (summary (fst (process_subject example_env ''in/001hexoskin'' ''out''
                                    example_args example_world))) = 1"
proof -
  have a: "\<not> dry_run example_args \<and> \<not> resume example_args"
    by (simp add: example_args_def)
  have H: "\<forall>cmd fs. completed_ok (fst (run example_env cmd fs))
             = (cmd ! 2 \<notin> {''in/001hexoskin/c.wav''})"
    by (simp add: example_env_def)
  have b: "\<not> completed_ok (fst (run example_env
          (build_cmd example_env ''in/001hexoskin/c.wav''
             (output_file_of ''in/001hexoskin/c.wav'' ''out/001hexoskin'') example_args)
          (files example_world)))"
    using H build_cmd_wav by simp
  have g: "get_wav_files example_env ''in/001hexoskin'' = example_wavs"
    by (simp add: example_env_def)
  show ?thesis
    using job_errors_recorded [of example_env "''in/001hexoskin/c.wav''" "''out/001hexoskin''"
        example_args example_world "''in/001hexoskin''" "''out''" "{''in/001hexoskin/c.wav''}"]
      a H b g example_main_run
    by (simp add: example_wavs_def)
qed

lemma process_subject_dry_run:
  "dry_run a \<Longrightarrow>
   results (fst (process_subject e h od a w)) = map would_process (get_wav_files e h)"
  by (simp add: process_subject_results process_files_dry_run)

lemma filter_success_would_process:
  "filter success (map would_process fs) = map would_process fs"
  by (induction fs) (simp_all add: would_process_def)

lemma sum_list_zero: "\<forall>x \<in> set xs. f x = (0::int) \<Longrightarrow> sum_list (map f xs) = 0"
  by (induction xs) simp_all

text \<open>
  C10. In every per-subject summary the total is the number of recorded outcomes and
  success plus failed is the total, success counting the outcomes whose boolean is true.
  A job skipped under resume is recorded as a success with the message
  \<open>Skipped (already exists)\<close>, and in a dry run every job is a success (\<open>Would process\<close>),
  so both count in the success total. A subject without files has the totals 0, 0, 0, and
  the batch-wide success rate is the line \<open>N/A\<close> exactly when there are no files at all.
\<close>

theorem summary_counts:
  "total_count (summary (fst (process_subject e h od a w)))
     = int (length (results (fst (process_subject e h od a w))))
   \<and> success_count (summary (fst (process_subject e h od a w)))
     + failed_count (summary (fst (process_subject e h od a w)))
     = total_count (summary (fst (process_subject e h od a w)))
   \<and> success_count (summary (fst (process_subject e h od a w)))
     = int (length (filter success (results (fst (process_subject e h od a w)))))
   \<and> (resume a \<and> path_exists w (output_file_of f sd) \<longrightarrow>
        fst (convert_wav_to_csv e f sd a w) = (f, True, ''Skipped (already exists)''))
   \<and> (dry_run a \<longrightarrow>
        results (fst (process_subject e h od a w)) = map would_process (get_wav_files e h)
        \<and> success_count (summary (fst (process_subject e h od a w)))
          = total_count (summary (fst (process_subject e h od a w))))
   \<and> (get_wav_files e h = [] \<longrightarrow>
        summary (fst (process_subject e h od a w))
          = \<lparr>total_count = 0, success_count = 0, failed_count = 0\<rparr>)
   \<and> ((\<forall>r \<in> set rs. total_count (summary r) = 0) \<longrightarrow>
        total_files (print_summary rs) = 0 \<and> rate (print_summary rs) = NotApplicable)
   \<and> (rate (print_summary rs) = NotApplicable) = (total_files (print_summary rs) \<le> 0)"
proof -
  let ?r = "fst (process_subject e h od a w)"
  have s: "summary ?r = \<lparr>total_count = int (length (results ?r)),
        success_count = int (length (filter success (results ?r))),
        failed_count = int (length (results ?r)) - int (length (filter success (results ?r)))\<rparr>"
    by (rule process_subject_summary)
  have one: "total_count (summary ?r) = int (length (results ?r))"
    by (simp add: s)
  have two: "success_count (summary ?r) + failed_count (summary ?r) = total_count (summary ?r)"
    by (simp add: s)
  have three: "success_count (summary ?r) = int (length (filter success (results ?r)))"
    by (simp add: s)
  have four: "resume a \<and> path_exists w (output_file_of f sd) \<longrightarrow>
        fst (convert_wav_to_csv e f sd a w) = (f, True, ''Skipped (already exists)'')"
    by (simp add: convert_skipped)
  have five: "dry_run a \<longrightarrow>
        results ?r = map would_process (get_wav_files e h)
        \<and> success_count (summary ?r) = total_count (summary ?r)"
  proof
    assume d: "dry_run a"
    then have r: "results ?r = map would_process (get_wav_files e h)"
      by (rule process_subject_dry_run)
    have "filter success (results ?r) = results ?r"
      by (simp only: r filter_success_would_process)
    then have "success_count (summary ?r) = total_count (summary ?r)"
      by (simp only: one three)
    with r show "results ?r = map would_process (get_wav_files e h)
        \<and> success_count (summary ?r) = total_count (summary ?r)" by simp
  qed
  have six: "get_wav_files e h = [] \<longrightarrow>
        summary ?r = \<lparr>total_count = 0, success_count = 0, failed_count = 0\<rparr>"
    by (simp add: process_subject_def create_output_structure_def Let_def split: prod.splits)
  have seven: "(\<forall>r \<in> set rs. total_count (summary r) = 0) \<longrightarrow>
        total_files (print_summary rs) = 0 \<and> rate (print_summary rs) = NotApplicable"
    by (simp add: print_summary_def Let_def sum_list_zero)
  have eight: "(rate (print_summary rs) = NotApplicable) = (total_files (print_summary rs) \<le> 0)"
    by (simp add: print_summary_def Let_def)
  from one two three four five six seven eight show ?thesis by blast
qed

lemma example_output_file:
  "output_file_of ''in/001hexoskin/a.wav'' ''out/001hexoskin'' = ''out/001hexoskin/a.csv''"
  by code_simp

theorem summary_counts_witness:
  "resume (example_args\<lparr>dry_run := True, resume := True\<rparr>)
   \<and> path_exists \<lparr>files = set [''in'', ''out/001hexoskin/a.csv''], written = [], spawned = []\<rparr>
        (output_file_of ''in/001hexoskin/a.wav'' ''out/001hexoskin'')
   \<and> fst (convert_wav_to_csv example_env ''in/001hexoskin/a.wav'' ''out/001hexoskin''
            (example_args\<lparr>dry_run := True, resume := True\<rparr>)
            \<lparr>files = set [''in'', ''out/001hexoskin/a.csv''], written = [], spawned = []\<rparr>)
       = (''in/001hexoskin/a.wav'', True, ''Skipped (already exists)'')
   \<and> dry_run (example_args\<lparr>dry_run := True, resume := True\<rparr>)
   \<and> results (fst (process_subject example_env ''in/001hexoskin'' ''out''
            (example_args\<lparr>dry_run := True, resume := True\<rparr>)
            \<lparr>files = set [''in'', ''out/001hexoskin/a.csv''], written = [], spawned = []\<rparr>))
       = map would_process example_wavs
   \<and> total_count (summary (fst (process_subject example_env ''in/001hexoskin'' ''out''
            (example_args\<lparr>dry_run := True, resume := True\<rparr>)
            \<lparr>files = set [''in'', ''out/001hexoskin/a.csv''], written = [], spawned = []\<rparr>))) = 5
   \<and> success_count (summary (fst (process_subject example_env ''in/001hexoskin'' ''out''
            (example_args\<lparr>dry_run := True, resume := True\<rparr>)
            \<lparr>files = set [''in'', ''out/001hexoskin/a.csv''], written = [], spawned = []\<rparr>))) = 5
   \<and> failed_count (summary (fst (process_subject example_env ''in/001hexoskin'' ''out''
            (example_args\<lparr>dry_run := True, resume := True\<rparr>)
            \<lparr>files = set [''in'', ''out/001hexoskin/a.csv''], written = [], spawned = []\<rparr>))) = 0
   \<and> get_wav_files (example_env\<lparr>get_wav_files := \<lambda>d. []\<rparr>) ''in/002hexoskin'' = []
   \<and> summary (fst (process_subject (example_env\<lparr>get_wav_files := \<lambda>d. []\<rparr>) ''in/002hexoskin''
            ''out'' example_args example_world))
       = \<lparr>total_count = 0, success_count = 0, failed_count = 0\<rparr>
   \<and> rate (print_summary [fst (process_subject (example_env\<lparr>get_wav_files := \<lambda>d. []\<rparr>)
            ''in/002hexoskin'' ''out'' example_args example_world)]) = NotApplicable"
  using summary_counts [of example_env "''in/001hexoskin''" "''out''"
      "example_args\<lparr>dry_run := True, resume := True\<rparr>"
      "\<lparr>files = set [''in'', ''out/001hexoskin/a.csv''], written = [], spawned = []\<rparr>"
      "''in/001hexoskin/a.wav''" "''out/001hexoskin''" "[]"]
    summary_counts [of "example_env\<lparr>get_wav_files := \<lambda>d. []\<rparr>" "''in/002hexoskin''" "''out''"
      example_args example_world "''in/001hexoskin/a.wav''" "''out/001hexoskin''"
      "[fst (process_subject (example_env\<lparr>get_wav_files := \<lambda>d. []\<rparr>)
            ''in/002hexoskin'' ''out'' example_args example_world)]"]
  by (simp add: example_output_file path_exists_def example_env_def example_wavs_def
      would_process_def)

section \<open>Properties of the epoch aggregation\<close>

lemma fold_min_Min: "fold min ts (t::int) = Min (set (t # ts))"
  by (simp only: Min.set_eq_fold)

lemma fold_max_Max: "fold max ts (t::int) = Max (set (t # ts))"
  by (simp only: Max.set_eq_fold)

lemma resample_sum_nonempty:
  assumes "series \<noteq> []"
  shows "resample_sum freq series =
    map (\<lambda>k. sum_list (map snd (filter (\<lambda>p. fst p div freq = k) series)))
      [Min (fst ` set series) div freq..Max (fst ` set series) div freq]"
proof -
  from assms obtain p ps where s: "series = p # ps" by (cases series) auto
  have "fold min (map fst ps) (fst p) = Min (fst ` set series)"
    unfolding fold_min_Min s by simp
  moreover have "fold max (map fst ps) (fst p) = Max (fst ` set series)"
    unfolding fold_max_Max s by simp
  ultimately show ?thesis
    by (simp add: resample_sum_def s Let_def)
qed

lemma bins_cover:
  fixes freq :: int
  assumes "0 < freq" and "p \<in> set series"
  shows "Min (fst ` set series) div freq \<le> fst p div freq"
    and "fst p div freq \<le> Max (fst ` set series) div freq"
proof -
  have "Min (fst ` set series) \<le> fst p" using assms(2) by simp
  then show "Min (fst ` set series) div freq \<le> fst p div freq"
    using assms(1) by (rule zdiv_mono1)
  have "fst p \<le> Max (fst ` set series)" using assms(2) by simp
  then show "fst p div freq \<le> Max (fst ` set series) div freq"
    using assms(1) by (rule zdiv_mono1)
qed

lemma sum_over_bins:
  fixes series :: "(int \<times> real) list"
  assumes "\<forall>p \<in> set series. lo \<le> g p \<and> g p \<le> hi"
  shows "(\<Sum>k\<leftarrow>[lo..hi]. sum_list (map snd (filter (\<lambda>p. g p = k) series)))
       = sum_list (map snd series)"
  using assms
proof (induction series)
  case Nil
  show ?case by simp
next
  case (Cons p ps)
  have in_range: "lo \<le> g p" "g p \<le> hi" using Cons.prems by simp_all
  have split: "(\<Sum>k\<leftarrow>[lo..hi]. sum_list (map snd (filter (\<lambda>q. g q = k) (p # ps))))
      = (\<Sum>k\<leftarrow>[lo..hi]. (if g p = k then snd p else 0))
        + (\<Sum>k\<leftarrow>[lo..hi]. sum_list (map snd (filter (\<lambda>q. g q = k) ps)))"
  proof -
    have pt: "\<And>k. sum_list (map snd (filter (\<lambda>q. g q = k) (p # ps)))
        = (if g p = k then snd p else 0) + sum_list (map snd (filter (\<lambda>q. g q = k) ps))"
      by simp
    show ?thesis by (simp only: pt sum_list_addf)
  qed
  have "(\<Sum>k\<leftarrow>[lo..hi]. (if g p = k then snd p else 0))
      = (\<Sum>k\<in>{lo..hi}. (if g p = k then snd p else 0))"
    by (simp add: sum_list_distinct_conv_sum_set)
  also have "\<dots> = snd p" using in_range by simp
  finally have one: "(\<Sum>k\<leftarrow>[lo..hi]. (if g p = k then snd p else 0)) = snd p" .
  have "(\<Sum>k\<leftarrow>[lo..hi]. sum_list (map snd (filter (\<lambda>q. g q = k) ps))) = sum_list (map snd ps)"
    using Cons by simp
  with split one show ?case by simp
qed

lemma example_magnitudes:
  "map (\<lambda>r. (timestamp r, vector_magnitude r)) example_stream
     = [(14000000000, 1), (18500000000, 1), (23000000000, 1), (27500000000, 1), (32000000000, 1)]"
  by (simp add: example_stream_def vector_magnitude_def)

lemma example_resample:
  "resample_sum epoch_ns
     [(14000000000, 1), (18500000000, 1), (23000000000, 1), (27500000000, 1), (32000000000, 1)]
   = [1, 3, 1]"
  by code_simp

lemma ex_counts: "convert_to_triaxial_counts example_stream = [1, 3, 1]"
  by (simp only: convert_to_triaxial_counts_def example_magnitudes example_resample)

lemma counts_nonempty:
  assumes "df \<noteq> []"
  shows "convert_to_triaxial_counts df =
    map (\<lambda>k. \<Sum>r\<leftarrow>filter (\<lambda>r. timestamp r div epoch_ns = k) df. vector_magnitude r)
      [Min (timestamp ` set df) div epoch_ns..Max (timestamp ` set df) div epoch_ns]"
proof -
  let ?s = "map (\<lambda>r. (timestamp r, vector_magnitude r)) df"
  have ne: "?s \<noteq> []" using assms by simp
  have img: "fst ` set ?s = timestamp ` set df" by (simp add: image_image)
  have inner: "\<And>k. sum_list (map snd (filter (\<lambda>p. fst p div epoch_ns = k) ?s))
      = (\<Sum>r\<leftarrow>filter (\<lambda>r. timestamp r div epoch_ns = k) df. vector_magnitude r)"
    by (simp add: filter_map comp_def)
  show ?thesis
    unfolding convert_to_triaxial_counts_def resample_sum_nonempty [OF ne] img inner ..
qed

lemma div_diff_aligned:
  fixes a b e :: int
  assumes "e dvd a"
  shows "b div e - a div e = (b - a) div e"
proof -
  from assms obtain q where a: "a = e * q" by (auto simp: dvd_def)
  show ?thesis
  proof (cases "e = 0")
    case True
    then show ?thesis by simp
  next
    case False
    have "b div e = ((b - e * q) + q * e) div e" by simp
    also have "\<dots> = q + (b - e * q) div e" using False by (rule div_mult_self1)
    finally show ?thesis using False by (simp add: a)
  qed
qed

text \<open>
  C2, as the code has it. For a non-empty data frame the aggregation yields one sum of
  vector magnitudes per 15-second bucket, for every bucket from that of the earliest
  sample to that of the latest one; the buckets are the multiples of 15 seconds of the
  clock, not the intervals counted from the first sample. Every sample is summed in
  exactly one bucket, so the trailing partial bucket is emitted and the counts add up to
  the sum of all magnitudes. When the first sample lies on a multiple of 15 seconds, the
  number of epochs is \<open>(last - first) div 15 s + 1\<close>, which is 2 for a stream whose
  samples span at least one and less than two epochs.
\<close>

theorem triaxial_counts_buckets:
  assumes "df \<noteq> []"
  shows "length (convert_to_triaxial_counts df)
       = nat (Max (timestamp ` set df) div epoch_ns - Min (timestamp ` set df) div epoch_ns + 1)
   \<and> (\<forall>k < length (convert_to_triaxial_counts df).
         convert_to_triaxial_counts df ! k
           = (\<Sum>r\<leftarrow>filter (\<lambda>r. timestamp r div epoch_ns
                                    = Min (timestamp ` set df) div epoch_ns + int k) df.
                vector_magnitude r))
   \<and> sum_list (convert_to_triaxial_counts df) = (\<Sum>r\<leftarrow>df. vector_magnitude r)
   \<and> (epoch_ns dvd Min (timestamp ` set df) \<longrightarrow>
        length (convert_to_triaxial_counts df)
          = nat ((Max (timestamp ` set df) - Min (timestamp ` set df)) div epoch_ns + 1))
   \<and> (epoch_ns dvd Min (timestamp ` set df)
        \<and> epoch_ns \<le> Max (timestamp ` set df) - Min (timestamp ` set df)
        \<and> Max (timestamp ` set df) - Min (timestamp ` set df) < 2 * epoch_ns \<longrightarrow>
        length (convert_to_triaxial_counts df) = 2)"
proof -
  let ?lo = "Min (timestamp ` set df) div epoch_ns"
  let ?hi = "Max (timestamp ` set df) div epoch_ns"
  let ?c = "convert_to_triaxial_counts df"
  have pos: "0 < epoch_ns" by (simp add: epoch_ns_def)
  have c: "?c = map (\<lambda>k. \<Sum>r\<leftarrow>filter (\<lambda>r. timestamp r div epoch_ns = k) df. vector_magnitude r)
      [?lo..?hi]"
    using assms by (rule counts_nonempty)
  have len: "length ?c = nat (?hi - ?lo + 1)"
    by (simp add: c)
  have nth: "\<forall>k < length ?c. ?c ! k
      = (\<Sum>r\<leftarrow>filter (\<lambda>r. timestamp r div epoch_ns = ?lo + int k) df. vector_magnitude r)"
  proof (intro allI impI)
    fix k
    assume "k < length ?c"
    then have k: "k < length [?lo..?hi]" by (simp add: c)
    then have "?lo + int k \<le> ?hi" by simp
    then have "[?lo..?hi] ! k = ?lo + int k" by (rule nth_upto)
    with k show "?c ! k
      = (\<Sum>r\<leftarrow>filter (\<lambda>r. timestamp r div epoch_ns = ?lo + int k) df. vector_magnitude r)"
      by (simp only: c nth_map)
  qed
  have range: "\<forall>r \<in> set df. ?lo \<le> timestamp r div epoch_ns \<and> timestamp r div epoch_ns \<le> ?hi"
  proof
    fix r
    assume r: "r \<in> set df"
    have "Min (timestamp ` set df) \<le> timestamp r" using r by simp
    then have a: "?lo \<le> timestamp r div epoch_ns" using pos by (rule zdiv_mono1)
    have "timestamp r \<le> Max (timestamp ` set df)" using r by simp
    then have "timestamp r div epoch_ns \<le> ?hi" using pos by (rule zdiv_mono1)
    with a show "?lo \<le> timestamp r div epoch_ns \<and> timestamp r div epoch_ns \<le> ?hi" ..
  qed
  have total: "sum_list ?c = (\<Sum>r\<leftarrow>df. vector_magnitude r)"
  proof -
    let ?s = "map (\<lambda>r. (timestamp r, vector_magnitude r)) df"
    have "\<forall>p \<in> set ?s. ?lo \<le> fst p div epoch_ns \<and> fst p div epoch_ns \<le> ?hi"
      using range by auto
    from sum_over_bins [OF this]
    have "(\<Sum>k\<leftarrow>[?lo..?hi]. sum_list (map snd (filter (\<lambda>p. fst p div epoch_ns = k) ?s)))
        = sum_list (map snd ?s)" .
    then show ?thesis
      by (simp add: c filter_map comp_def)
  qed
  have al: "epoch_ns dvd Min (timestamp ` set df) \<longrightarrow>
      length ?c = nat ((Max (timestamp ` set df) - Min (timestamp ` set df)) div epoch_ns + 1)"
    using len by (simp add: div_diff_aligned)
  have two: "epoch_ns dvd Min (timestamp ` set df)
        \<and> epoch_ns \<le> Max (timestamp ` set df) - Min (timestamp ` set df)
        \<and> Max (timestamp ` set df) - Min (timestamp ` set df) < 2 * epoch_ns \<longrightarrow>
        length ?c = 2"
  proof
    assume h: "epoch_ns dvd Min (timestamp ` set df)
        \<and> epoch_ns \<le> Max (timestamp ` set df) - Min (timestamp ` set df)
        \<and> Max (timestamp ` set df) - Min (timestamp ` set df) < 2 * epoch_ns"
    let ?d = "Max (timestamp ` set df) - Min (timestamp ` set df)"
    have "?d div epoch_ns = 1"
      using h pos by (intro int_div_pos_eq [where r = "?d - epoch_ns"]) simp_all
    with al h show "length ?c = 2" by simp
  qed
  from len nth total al two show ?thesis by blast
qed

theorem triaxial_counts_buckets_witness:
  "aligned_stream \<noteq> []
   \<and> epoch_ns dvd Min (timestamp ` set aligned_stream)
   \<and> epoch_ns \<le> Max (timestamp ` set aligned_stream) - Min (timestamp ` set aligned_stream)
   \<and> Max (timestamp ` set aligned_stream) - Min (timestamp ` set aligned_stream) < 2 * epoch_ns
   \<and> length (convert_to_triaxial_counts aligned_stream) = 2
   \<and> sum_list (convert_to_triaxial_counts aligned_stream) = 3"
  using triaxial_counts_buckets [of aligned_stream]
  by (simp add: aligned_stream_def epoch_ns_def vector_magnitude_def)

text \<open>
  The claim as stated fails: the five samples of \<open>example_stream\<close> span one and a half
  epochs, but fall into three clock-aligned buckets, the first holding only the first
  sample. Buckets aligned to the first sample would give the two sums 4 and 1.
\<close>

theorem triaxial_counts_alignment_counterexample:
  "convert_to_triaxial_counts example_stream = [1, 3, 1]
   \<and> length (convert_to_triaxial_counts example_stream)
       \<noteq> nat \<lceil>(5 * 4500000000 :: real) / of_int epoch_ns\<rceil>"
  by (simp add: ex_counts) (simp add: epoch_ns_def)

section \<open>Properties of the resume mode\<close>

lemma makedirs_spawned: "spawned (makedirs p w) = spawned w"
  by (simp add: makedirs_def Let_def)

lemma makedirs_files: "files (makedirs p w) = files w \<union> set (ancestors p)"
  by (auto simp: makedirs_def Let_def)

lemma makedirs_written:
  "set (written (makedirs p w)) \<subseteq> set (written w) \<union> set (ancestors p)"
  by (auto simp: makedirs_def Let_def)

lemma makedirs_noop: "set (ancestors p) \<subseteq> files w \<Longrightarrow> makedirs p w = w"
proof -
  assume a: "set (ancestors p) \<subseteq> files w"
  then have "filter (\<lambda>d. d \<notin> files w) (ancestors p) = []"
    by (auto simp: filter_empty_conv)
  then show ?thesis by (simp add: makedirs_def Let_def)
qed

lemma convert_files_mono: "files w \<subseteq> files (snd (convert_wav_to_csv e f od a w))"
proof (cases "resume a \<and> path_exists w (output_file_of f od)")
  case True
  then show ?thesis by (simp add: convert_skipped)
next
  case False
  obtain r ps where rp: "run e (build_cmd e f (output_file_of f od) a) (files w) = (r, ps)"
    by (metis prod.collapse)
  show ?thesis by (simp add: convert_not_skipped [OF False rp])
qed

lemma process_files_files_mono: "files w \<subseteq> files (snd (process_files e od a fs acc w))"
proof (induction fs arbitrary: acc w)
  case Nil
  show ?case by simp
next
  case (Cons f fs)
  show ?case
  proof (cases "dry_run a")
    case True
    then show ?thesis using Cons by simp
  next
    case False
    obtain f' ok msg w' where c: "convert_wav_to_csv e f od a w = ((f', ok, msg), w')"
      by (metis prod.collapse)
    have "files w \<subseteq> files w'" using convert_files_mono [of w e f od a] c by simp
    moreover have "files w' \<subseteq> files (snd (process_files e od a fs
        (acc @ [\<lparr>wav_file = f', success = ok, message = msg\<rparr>]) w'))"
      by (rule Cons)
    ultimately show ?thesis using False c by simp
  qed
qed

lemma process_files_all_skipped:
  assumes "resume a" and "\<not> dry_run a"
    and "\<forall>f \<in> set fs. path_exists w (output_file_of f od)"
  shows "process_files e od a fs acc w = (acc @ map skipped_outcome fs, w)"
  using assms(3)
proof (induction fs arbitrary: acc)
  case Nil
  show ?case by simp
next
  case (Cons f fs)
  have c: "convert_wav_to_csv e f od a w = ((f, True, ''Skipped (already exists)''), w)"
    using assms(1) Cons.prems by (simp add: convert_skipped)
  have "process_files e od a fs (acc @ [skipped_outcome f]) w
      = ((acc @ [skipped_outcome f]) @ map skipped_outcome fs, w)"
    using Cons.prems by (intro Cons.IH) simp
  then show ?case using assms(2) c by (simp add: skipped_outcome_def)
qed

lemma process_files_skips:
  assumes "resume a" and "\<not> dry_run a" and "files w0 \<subseteq> files w"
  shows "list_all2 (\<lambda>f out. path_exists w0 (output_file_of f od) \<longrightarrow> out = skipped_outcome f)
           fs (fst (process_files e od a fs [] w))"
  using assms(3)
proof (induction fs arbitrary: w)
  case Nil
  show ?case by simp
next
  case (Cons f fs)
  obtain f' ok msg w' where c: "convert_wav_to_csv e f od a w = ((f', ok, msg), w')"
    by (metis prod.collapse)
  have mono: "files w0 \<subseteq> files w'"
    using convert_files_mono [of w e f od a] c Cons.prems by auto
  have rest: "list_all2 (\<lambda>f out. path_exists w0 (output_file_of f od) \<longrightarrow> out = skipped_outcome f)
           fs (fst (process_files e od a fs [] w'))"
    using mono by (rule Cons.IH)
  have first: "path_exists w0 (output_file_of f od) \<longrightarrow>
      \<lparr>wav_file = f', success = ok, message = msg\<rparr> = skipped_outcome f"
  proof
    assume "path_exists w0 (output_file_of f od)"
    then have "path_exists w (output_file_of f od)"
      using Cons.prems by (auto simp: path_exists_def)
    with assms(1) c show "\<lparr>wav_file = f', success = ok, message = msg\<rparr> = skipped_outcome f"
      by (simp add: convert_skipped skipped_outcome_def)
  qed
  have "fst (process_files e od a (f # fs) [] w)
      = \<lparr>wav_file = f', success = ok, message = msg\<rparr> # fst (process_files e od a fs [] w')"
    using assms(2) c
      process_files_acc [of e od a fs "[\<lparr>wav_file = f', success = ok, message = msg\<rparr>]" w']
    by simp
  with first rest show ?case by simp
qed

lemma process_subject_world:
  "snd (process_subject e d od a w)
     = snd (process_files e (subject_output_dir_of od (get_subject_id d)) a (get_wav_files e d) []
             (makedirs (subject_output_dir_of od (get_subject_id d)) w))"
  by (simp add: process_subject_def create_output_structure_def Let_def split: prod.splits)

lemma process_subject_files_mono:
  "files w \<union> set (ancestors (subject_dir a d)) \<subseteq> files (snd (process_subject e d (output_dir a) a w))"
proof -
  have "files (makedirs (subject_dir a d) w)
      \<subseteq> files (snd (process_files e (subject_dir a d) a (get_wav_files e d) []
                        (makedirs (subject_dir a d) w)))"
    by (rule process_files_files_mono)
  then show ?thesis
    by (simp add: process_subject_world subject_dir_def makedirs_files)
qed

lemma process_all_acc:
  "fst (process_all e a ds acc w) = acc @ fst (process_all e a ds [] w)
   \<and> snd (process_all e a ds acc w) = snd (process_all e a ds [] w)"
proof (induction ds arbitrary: acc w)
  case Nil
  show ?case by simp
next
  case (Cons d ds)
  obtain r w' where p: "process_subject e d (output_dir a) a w = (r, w')"
    by (metis prod.collapse)
  show ?case
    using p Cons [of "acc @ [r]" w'] Cons [of "[r]" w'] by simp
qed

lemma process_all_Cons:
  "fst (process_all e a (d # ds) [] w)
     = fst (process_subject e d (output_dir a) a w)
       # fst (process_all e a ds [] (snd (process_subject e d (output_dir a) a w)))"
  "snd (process_all e a (d # ds) [] w)
     = snd (process_all e a ds [] (snd (process_subject e d (output_dir a) a w)))"
proof -
  obtain r w' where p: "process_subject e d (output_dir a) a w = (r, w')"
    by (metis prod.collapse)
  show "fst (process_all e a (d # ds) [] w)
     = fst (process_subject e d (output_dir a) a w)
       # fst (process_all e a ds [] (snd (process_subject e d (output_dir a) a w)))"
    using p process_all_acc [of e a ds "[r]" w'] by simp
  show "snd (process_all e a (d # ds) [] w)
     = snd (process_all e a ds [] (snd (process_subject e d (output_dir a) a w)))"
    using p process_all_acc [of e a ds "[r]" w'] by simp
qed

lemma process_all_files_mono:
  "files w \<union> (\<Union>d \<in> set ds. set (ancestors (subject_dir a d)))
     \<subseteq> files (snd (process_all e a ds [] w))"
proof (induction ds arbitrary: w)
  case Nil
  show ?case by simp
next
  case (Cons d ds)
  let ?w' = "snd (process_subject e d (output_dir a) a w)"
  have one: "files w \<union> set (ancestors (subject_dir a d)) \<subseteq> files ?w'"
    by (rule process_subject_files_mono)
  have two: "files ?w' \<union> (\<Union>d \<in> set ds. set (ancestors (subject_dir a d)))
     \<subseteq> files (snd (process_all e a ds [] ?w'))"
    by (rule Cons)
  from one two show ?case
    by (simp only: process_all_Cons) auto
qed

lemma process_all_job_counts:
  "map (\<lambda>r. length (results r)) (fst (process_all e a ds [] w))
     = map (\<lambda>d. length (get_wav_files e d)) ds"
proof (induction ds arbitrary: w)
  case Nil
  show ?case by simp
next
  case (Cons d ds)
  have "length (results (fst (process_subject e d (output_dir a) a w)))
      = length (get_wav_files e d)"
    using process_subject_wav_files [of e d "output_dir a" a w] by (metis length_map)
  then show ?case
    by (simp add: process_all_Cons Cons del: process_all.simps)
qed

lemma process_subject_skips:
  assumes "resume a" and "\<not> dry_run a" and "files w0 \<subseteq> files w"
  shows "list_all2 (\<lambda>f out. path_exists w0 (output_file_of f (subject_dir a d))
                              \<longrightarrow> out = skipped_outcome f)
           (get_wav_files e d) (results (fst (process_subject e d (output_dir a) a w)))"
proof -
  have "files w0 \<subseteq> files (makedirs (subject_dir a d) w)"
    using assms(3) by (auto simp: makedirs_files)
  from process_files_skips [OF assms(1,2) this]
  show ?thesis by (simp add: process_subject_results subject_dir_def)
qed

lemma process_all_skips:
  assumes "resume a" and "\<not> dry_run a" and "files w0 \<subseteq> files w"
  shows "list_all2 (\<lambda>d r. list_all2 (\<lambda>f out. path_exists w0 (output_file_of f (subject_dir a d))
                                              \<longrightarrow> out = skipped_outcome f)
                            (get_wav_files e d) (results r))
           ds (fst (process_all e a ds [] w))"
  using assms(3)
proof (induction ds arbitrary: w)
  case Nil
  show ?case by simp
next
  case (Cons d ds)
  let ?w' = "snd (process_subject e d (output_dir a) a w)"
  have "files w \<subseteq> files ?w'" using process_subject_files_mono [of w a d e] by simp
  with Cons.prems have "files w0 \<subseteq> files ?w'" by simp
  then have rest: "list_all2 (\<lambda>d r. list_all2 (\<lambda>f out. path_exists w0 (output_file_of f (subject_dir a d))
                                              \<longrightarrow> out = skipped_outcome f)
                            (get_wav_files e d) (results r))
           ds (fst (process_all e a ds [] ?w'))"
    by (rule Cons.IH)
  have first: "list_all2 (\<lambda>f out. path_exists w0 (output_file_of f (subject_dir a d))
                              \<longrightarrow> out = skipped_outcome f)
           (get_wav_files e d) (results (fst (process_subject e d (output_dir a) a w)))"
    using assms(1,2) Cons.prems by (rule process_subject_skips)
  from first rest show ?case by (simp add: process_all_Cons del: process_all.simps)
qed

lemma process_subject_all_skipped:
  assumes "resume a" and "\<not> dry_run a"
    and "set (ancestors (subject_dir a d)) \<subseteq> files w"
    and "\<forall>f \<in> set (get_wav_files e d). path_exists w (output_file_of f (subject_dir a d))"
  shows "snd (process_subject e d (output_dir a) a w) = w"
    and "results (fst (process_subject e d (output_dir a) a w))
           = map skipped_outcome (get_wav_files e d)"
proof -
  have m: "makedirs (subject_dir a d) w = w" using assms(3) by (rule makedirs_noop)
  have p: "process_files e (subject_dir a d) a (get_wav_files e d) [] w
      = ([] @ map skipped_outcome (get_wav_files e d), w)"
    using assms(1,2,4) by (rule process_files_all_skipped)
  show "snd (process_subject e d (output_dir a) a w) = w"
    using m p by (simp add: process_subject_world subject_dir_def [symmetric])
  show "results (fst (process_subject e d (output_dir a) a w))
           = map skipped_outcome (get_wav_files e d)"
    using m p by (simp add: process_subject_results subject_dir_def [symmetric])
qed

lemma process_all_all_skipped:
  assumes "resume a" and "\<not> dry_run a"
    and "\<forall>d \<in> set ds. set (ancestors (subject_dir a d)) \<subseteq> files w
           \<and> (\<forall>f \<in> set (get_wav_files e d). path_exists w (output_file_of f (subject_dir a d)))"
  shows "snd (process_all e a ds [] w) = w
       \<and> map results (fst (process_all e a ds [] w))
           = map (\<lambda>d. map skipped_outcome (get_wav_files e d)) ds"
  using assms(3)
proof (induction ds)
  case Nil
  show ?case by simp
next
  case (Cons d ds)
  have d: "set (ancestors (subject_dir a d)) \<subseteq> files w"
    "\<forall>f \<in> set (get_wav_files e d). path_exists w (output_file_of f (subject_dir a d))"
    using Cons.prems by simp_all
  have w: "snd (process_subject e d (output_dir a) a w) = w"
    using assms(1,2) d by (rule process_subject_all_skipped)
  have r: "results (fst (process_subject e d (output_dir a) a w))
      = map skipped_outcome (get_wav_files e d)"
    using assms(1,2) d by (rule process_subject_all_skipped)
  have "snd (process_all e a ds [] w) = w
       \<and> map results (fst (process_all e a ds [] w))
           = map (\<lambda>d. map skipped_outcome (get_wav_files e d)) ds"
    using Cons.prems by (intro Cons.IH) simp
  then show ?case by (simp add: process_all_Cons w r del: process_all.simps)
qed

lemma main_Inr:
  "main e a w = Inr (rs, w') \<longleftrightarrow>
     path_exists w (input_dir a) \<and> find_hexoskin_directories e (input_dir a) \<noteq> []
     \<and> discovered_dirs e a \<noteq> []
     \<and> rs = fst (process_all e a (discovered_dirs e a) [] (makedirs (output_dir a) w))
     \<and> w' = write_file (results_file_of a)
               (snd (process_all e a (discovered_dirs e a) [] (makedirs (output_dir a) w)))"
  by (auto simp: main_def discovered_dirs_def Let_def split: prod.splits)

lemma write_file_files: "files (write_file p w) = insert p (files w)"
  by (simp add: write_file_def)

lemma write_file_spawned: "spawned (write_file p w) = spawned w"
  by (simp add: write_file_def)

lemma write_file_written: "written (write_file p w) = written w @ [p]"
  by (simp add: write_file_def)

lemma main_leaves:
  assumes "main e a w = Inr (rs, w')"
  shows "files w \<subseteq> files w'"
    and "set (ancestors (output_dir a)) \<subseteq> files w'"
    and "\<forall>d \<in> set (discovered_dirs e a). set (ancestors (subject_dir a d)) \<subseteq> files w'"
    and "results_file_of a \<in> files w'"
proof -
  let ?w1 = "makedirs (output_dir a) w"
  let ?w2 = "snd (process_all e a (discovered_dirs e a) [] ?w1)"
  from assms have w': "w' = write_file (results_file_of a) ?w2"
    by (simp add: main_Inr)
  have m: "files ?w1 \<union> (\<Union>d \<in> set (discovered_dirs e a). set (ancestors (subject_dir a d)))
      \<subseteq> files ?w2"
    by (rule process_all_files_mono)
  have f1: "files ?w1 = files w \<union> set (ancestors (output_dir a))"
    by (rule makedirs_files)
  show "files w \<subseteq> files w'" using m f1 by (auto simp: w' write_file_files)
  show "set (ancestors (output_dir a)) \<subseteq> files w'" using m f1 by (auto simp: w' write_file_files)
  show "\<forall>d \<in> set (discovered_dirs e a). set (ancestors (subject_dir a d)) \<subseteq> files w'"
    using m by (auto simp: w' write_file_files)
  show "results_file_of a \<in> files w'" by (simp add: w' write_file_files)
qed

lemma example_discovered:
  "discovered_dirs example_env example_dry_args = [''in/001hexoskin'']"
  "discovered_dirs good_env example_resume_args = [''in/001hexoskin'']"
  "get_wav_files example_env ''in/001hexoskin'' = example_wavs"
  "get_wav_files good_env ''in/001hexoskin'' = example_wavs"
  by (simp_all add: discovered_dirs_def filter_subjects_def example_env_def good_env_def
      example_dry_args_def example_resume_args_def example_args_def)

lemma example_first_run:
  "\<not> isl (main good_env example_resume_args example_world)"
  "list_all (\<lambda>f. path_exists (snd (projr (main good_env example_resume_args example_world)))
                    (output_file_of f (subject_dir example_resume_args ''in/001hexoskin'')))
     example_wavs"
  by code_simp+

lemma example_second_run:
  "\<not> isl (run_twice example_env example_resume_args example_world)"
  "map message (concat (map results
      (fst (projr (run_twice example_env example_resume_args example_world)))))
     = [''Skipped (already exists)'', ''Skipped (already exists)'', ''Error: bad header'',
        ''Skipped (already exists)'', ''Skipped (already exists)'']"
  "length (spawned (snd (projr (main example_env example_resume_args example_world)))) = 5"
  "length (spawned (snd (projr (run_twice example_env example_resume_args example_world)))) = 6"
  by code_simp+

text \<open>
  C5, as the code has it. With resume enabled a job whose output file exists is recorded
  as \<open>Skipped (already exists)\<close> and the state is unchanged: no subprocess is started
  and nothing is written. When the batch is run again from the state that a first run
  left (resume enabled, no dry run, unchanged inputs), the second run completes and
  every job whose output file exists after the first run is skipped; when every job's
  output file exists, all jobs are skipped, no conversion is started and the set of
  existing files is unchanged.
\<close>

theorem resume_skips_existing:
  assumes "resume a" and "\<not> dry_run a" and "main e a w0 = Inr (rs1, w1)"
  shows "(path_exists w (output_file_of f sd) \<longrightarrow>
            convert_wav_to_csv e f sd a w = ((f, True, ''Skipped (already exists)''), w))
       \<and> (\<exists>rs2 w2. main e a w1 = Inr (rs2, w2)
            \<and> list_all2 (\<lambda>d r. list_all2 (\<lambda>f out. path_exists w1 (output_file_of f (subject_dir a d))
                                                     \<longrightarrow> out = skipped_outcome f)
                                   (get_wav_files e d) (results r))
                  (discovered_dirs e a) rs2
            \<and> ((\<forall>d \<in> set (discovered_dirs e a). \<forall>f \<in> set (get_wav_files e d).
                    path_exists w1 (output_file_of f (subject_dir a d))) \<longrightarrow>
                 map results rs2 = map (\<lambda>d. map skipped_outcome (get_wav_files e d))
                                       (discovered_dirs e a)
                 \<and> files w2 = files w1 \<and> spawned w2 = spawned w1))"
proof -
  have job: "path_exists w (output_file_of f sd) \<longrightarrow>
            convert_wav_to_csv e f sd a w = ((f, True, ''Skipped (already exists)''), w)"
    using assms(1) by (simp add: convert_skipped)
  let ?ds = "discovered_dirs e a"
  let ?w1' = "makedirs (output_dir a) w1"
  let ?rs2 = "fst (process_all e a ?ds [] ?w1')"
  let ?w2 = "write_file (results_file_of a) (snd (process_all e a ?ds [] ?w1'))"
  from assms(3) have first: "path_exists w0 (input_dir a)"
    "find_hexoskin_directories e (input_dir a) \<noteq> []" "?ds \<noteq> []"
    by (simp_all add: main_Inr)
  note leaves = main_leaves [OF assms(3)]
  have "path_exists w1 (input_dir a)"
    using first(1) leaves(1) by (auto simp: path_exists_def)
  then have second: "main e a w1 = Inr (?rs2, ?w2)"
    using first by (simp add: main_Inr)
  have noop: "?w1' = w1" using leaves(2) by (rule makedirs_noop)
  have skips: "list_all2 (\<lambda>d r. list_all2 (\<lambda>f out. path_exists w1 (output_file_of f (subject_dir a d))
                                                     \<longrightarrow> out = skipped_outcome f)
                                   (get_wav_files e d) (results r)) ?ds ?rs2"
    using assms(1,2) by (intro process_all_skips) (simp_all add: makedirs_files)
  have all: "(\<forall>d \<in> set ?ds. \<forall>f \<in> set (get_wav_files e d).
                    path_exists w1 (output_file_of f (subject_dir a d))) \<longrightarrow>
                 map results ?rs2 = map (\<lambda>d. map skipped_outcome (get_wav_files e d)) ?ds
                 \<and> files ?w2 = files w1 \<and> spawned ?w2 = spawned w1"
  proof
    assume ex: "\<forall>d \<in> set ?ds. \<forall>f \<in> set (get_wav_files e d).
                    path_exists w1 (output_file_of f (subject_dir a d))"
    have "\<forall>d \<in> set ?ds. set (ancestors (subject_dir a d)) \<subseteq> files w1
           \<and> (\<forall>f \<in> set (get_wav_files e d). path_exists w1 (output_file_of f (subject_dir a d)))"
      using ex leaves(3) by simp
    from process_all_all_skipped [OF assms(1,2) this]
    have pa: "snd (process_all e a ?ds [] w1) = w1"
      "map results (fst (process_all e a ?ds [] w1))
         = map (\<lambda>d. map skipped_outcome (get_wav_files e d)) ?ds"
      by simp_all
    have "files ?w2 = files w1"
      using leaves(4) by (auto simp: noop pa(1) write_file_files)
    moreover have "spawned ?w2 = spawned w1"
      by (simp add: noop pa(1) write_file_spawned)
    ultimately show "map results ?rs2 = map (\<lambda>d. map skipped_outcome (get_wav_files e d)) ?ds
                 \<and> files ?w2 = files w1 \<and> spawned ?w2 = spawned w1"
      using pa(2) by (simp add: noop)
  qed
  from job second skips all show ?thesis by blast
qed

theorem resume_skips_existing_witness:
  "resume example_resume_args \<and> \<not> dry_run example_resume_args
   \<and> main good_env example_resume_args example_world
       = Inr (projr (main good_env example_resume_args example_world))
   \<and> list_all (\<lambda>f. path_exists (snd (projr (main good_env example_resume_args example_world)))
                    (output_file_of f (subject_dir example_resume_args ''in/001hexoskin'')))
        example_wavs
   \<and> (\<exists>rs2 w2. main good_env example_resume_args
                   (snd (projr (main good_env example_resume_args example_world)))
                 = Inr (rs2, w2)
         \<and> map results rs2 = [map skipped_outcome example_wavs]
         \<and> files w2 = files (snd (projr (main good_env example_resume_args example_world)))
         \<and> spawned w2 = spawned (snd (projr (main good_env example_resume_args example_world))))"
proof -
  have a: "resume example_resume_args" "\<not> dry_run example_resume_args"
    by (simp_all add: example_resume_args_def example_args_def)
  have m: "main good_env example_resume_args example_world
      = Inr (fst (projr (main good_env example_resume_args example_world)),
             snd (projr (main good_env example_resume_args example_world)))"
    using example_first_run(1) by simp
  show ?thesis
    using resume_skips_existing [OF a m, of example_world "''in/001hexoskin/a.wav''" "''out''"]
      a m example_first_run(2)
    by (auto simp: example_discovered list_all_iff)
qed

text \<open>
  The claim as stated fails where a conversion of the first run failed and left no output:
  the second run starts that conversion again (a sixth subprocess) and records its
  failure, not a skip.
\<close>

theorem resume_reruns_failed_counterexample:
  "resume example_resume_args
   \<and> \<not> isl (run_twice example_env example_resume_args example_world)
   \<and> map message (concat (map results
        (fst (projr (run_twice example_env example_resume_args example_world)))))
       = [''Skipped (already exists)'', ''Skipped (already exists)'', ''Error: bad header'',
          ''Skipped (already exists)'', ''Skipped (already exists)'']
   \<and> length (spawned (snd (projr (main example_env example_resume_args example_world)))) = 5
   \<and> length (spawned (snd (projr (run_twice example_env example_resume_args example_world)))) = 6"
  by (simp add: example_second_run) (simp add: example_resume_args_def)

section \<open>Properties of the dry run\<close>

lemma process_subject_dry_world:
  "dry_run a \<Longrightarrow>
   snd (process_subject e d (output_dir a) a w) = makedirs (subject_dir a d) w"
  by (simp add: process_subject_world process_files_dry_run subject_dir_def)

lemma process_all_dry_run:
  assumes "dry_run a"
  shows "spawned (snd (process_all e a ds [] w)) = spawned w
       \<and> set (written (snd (process_all e a ds [] w)))
           \<subseteq> set (written w) \<union> (\<Union>d \<in> set ds. set (ancestors (subject_dir a d)))
       \<and> map results (fst (process_all e a ds [] w))
           = map (\<lambda>d. map would_process (get_wav_files e d)) ds"
proof (induction ds arbitrary: w)
  case Nil
  show ?case by simp
next
  case (Cons d ds)
  let ?w' = "makedirs (subject_dir a d) w"
  have w': "snd (process_subject e d (output_dir a) a w) = ?w'"
    using assms by (rule process_subject_dry_world)
  have r: "results (fst (process_subject e d (output_dir a) a w))
      = map would_process (get_wav_files e d)"
    using assms by (rule process_subject_dry_run)
  have ih: "spawned (snd (process_all e a ds [] ?w')) = spawned ?w'
       \<and> set (written (snd (process_all e a ds [] ?w')))
           \<subseteq> set (written ?w') \<union> (\<Union>d \<in> set ds. set (ancestors (subject_dir a d)))
       \<and> map results (fst (process_all e a ds [] ?w'))
           = map (\<lambda>d. map would_process (get_wav_files e d)) ds"
    by (rule Cons)
  have wr: "set (written ?w') \<subseteq> set (written w) \<union> set (ancestors (subject_dir a d))"
    by (rule makedirs_written)
  show ?case
    using ih wr by (auto simp: process_all_Cons w' r makedirs_spawned simp del: process_all.simps)
qed

lemma process_all_totals:
  "map (\<lambda>r. total_count (summary r)) (fst (process_all e a ds [] w))
     = map (\<lambda>d. int (length (get_wav_files e d))) ds"
proof (induction ds arbitrary: w)
  case Nil
  show ?case by simp
next
  case (Cons d ds)
  have "length (results (fst (process_subject e d (output_dir a) a w)))
      = length (get_wav_files e d)"
    using process_subject_wav_files [of e d "output_dir a" a w] by (metis length_map)
  then have "total_count (summary (fst (process_subject e d (output_dir a) a w)))
      = int (length (get_wav_files e d))"
    by (simp add: process_subject_summary)
  then show ?case
    by (simp add: process_all_Cons Cons del: process_all.simps)
qed

lemma discovered_dirs_dry_run: "discovered_dirs e (a\<lparr>dry_run := b\<rparr>) = discovered_dirs e a"
  by (simp add: discovered_dirs_def filter_subjects_def)

lemma example_dry_run:
  "\<not> isl (main example_env example_dry_args example_world)"
  "written (snd (projr (main example_env example_dry_args example_world)))
     = [''out'', ''out/001hexoskin'', ''out/batch_conversion_results.json'']"
  by code_simp+

text \<open>
  C8, as the code has it. A dry run that gets past discovery starts no conversion and
  reports every discovered file of every processed subject as the success
  \<open>Would process\<close>; a real run from the same state discovers the same number of jobs per
  subject and in total. The dry run does write to the file system: it creates the output
  root and one output directory per subject where they are missing, and it writes the
  report file; it writes nothing else.
\<close>

theorem dry_run_converts_nothing:
  assumes "dry_run a" and "main e a w = Inr (rs, w')"
  shows "spawned w' = spawned w
       \<and> map results rs = map (\<lambda>d. map would_process (get_wav_files e d)) (discovered_dirs e a)
       \<and> set (written w') \<subseteq> set (written w) \<union> set (ancestors (output_dir a))
             \<union> (\<Union>d \<in> set (discovered_dirs e a). set (ancestors (subject_dir a d)))
             \<union> {results_file_of a}
       \<and> results_file_of a \<in> set (written w')
       \<and> (\<exists>rs' w''. main e (a\<lparr>dry_run := False\<rparr>) w = Inr (rs', w'')
             \<and> map (\<lambda>r. length (results r)) rs' = map (\<lambda>r. length (results r)) rs
             \<and> total_files (print_summary rs') = total_files (print_summary rs))"
proof -
  let ?ds = "discovered_dirs e a"
  let ?w1 = "makedirs (output_dir a) w"
  let ?a' = "a\<lparr>dry_run := False\<rparr>"
  from assms(2) have m: "path_exists w (input_dir a)"
    "find_hexoskin_directories e (input_dir a) \<noteq> []" "?ds \<noteq> []"
    and rs: "rs = fst (process_all e a ?ds [] ?w1)"
    and w': "w' = write_file (results_file_of a) (snd (process_all e a ?ds [] ?w1))"
    by (simp_all add: main_Inr)
  note dry = process_all_dry_run [OF assms(1), of e ?ds ?w1]
  have one: "spawned w' = spawned w"
    using dry by (simp add: w' write_file_spawned makedirs_spawned)
  have two: "map results rs = map (\<lambda>d. map would_process (get_wav_files e d)) ?ds"
    using dry by (simp add: rs)
  have "set (written ?w1) \<subseteq> set (written w) \<union> set (ancestors (output_dir a))"
    by (rule makedirs_written)
  then have three: "set (written w') \<subseteq> set (written w) \<union> set (ancestors (output_dir a))
             \<union> (\<Union>d \<in> set ?ds. set (ancestors (subject_dir a d))) \<union> {results_file_of a}"
    using dry by (auto simp: w' write_file_written)
  have four: "results_file_of a \<in> set (written w')"
    by (simp add: w' write_file_written)
  let ?rs' = "fst (process_all e ?a' ?ds [] ?w1)"
  let ?w'' = "write_file (results_file_of ?a') (snd (process_all e ?a' ?ds [] ?w1))"
  have real: "main e ?a' w = Inr (?rs', ?w'')"
    using m by (simp add: main_Inr discovered_dirs_dry_run)
  have counts: "map (\<lambda>r. length (results r)) ?rs' = map (\<lambda>r. length (results r)) rs"
    by (simp only: rs process_all_job_counts)
  have totals: "total_files (print_summary ?rs') = total_files (print_summary rs)"
    by (simp add: print_summary_def Let_def rs process_all_totals)
  from real counts totals have five: "\<exists>rs' w''. main e ?a' w = Inr (rs', w'')
             \<and> map (\<lambda>r. length (results r)) rs' = map (\<lambda>r. length (results r)) rs
             \<and> total_files (print_summary rs') = total_files (print_summary rs)"
    by blast
  from one two three four five show ?thesis by blast
qed

theorem dry_run_converts_nothing_witness:
  "dry_run example_dry_args
   \<and> main example_env example_dry_args example_world
       = Inr (projr (main example_env example_dry_args example_world))
   \<and> spawned (snd (projr (main example_env example_dry_args example_world))) = []
   \<and> map results (fst (projr (main example_env example_dry_args example_world)))
       = [map would_process example_wavs]
   \<and> (\<exists>rs' w''. main example_env (example_dry_args\<lparr>dry_run := False\<rparr>) example_world
                    = Inr (rs', w'')
         \<and> map (\<lambda>r. length (results r)) rs' = [5])"
proof -
  have d: "dry_run example_dry_args"
    by (simp add: example_dry_args_def)
  have m: "main example_env example_dry_args example_world
      = Inr (fst (projr (main example_env example_dry_args example_world)),
             snd (projr (main example_env example_dry_args example_world)))"
    using example_dry_run(1) by simp
  from dry_run_converts_nothing [OF d m] obtain rs' w'' where
    sp: "spawned (snd (projr (main example_env example_dry_args example_world)))
          = spawned example_world"
    and rs: "map results (fst (projr (main example_env example_dry_args example_world)))
          = map (\<lambda>d. map would_process (get_wav_files example_env d))
                (discovered_dirs example_env example_dry_args)"
    and real: "main example_env (example_dry_args\<lparr>dry_run := False\<rparr>) example_world
          = Inr (rs', w'')"
    and len: "map (\<lambda>r. length (results r)) rs'
          = map (\<lambda>r. length (results r))
                (fst (projr (main example_env example_dry_args example_world)))"
    by blast
  have rs5: "map results (fst (projr (main example_env example_dry_args example_world)))
      = [map would_process example_wavs]"
    using rs by (simp add: example_discovered)
  have "map (\<lambda>r. length (results r)) (fst (projr (main example_env example_dry_args example_world)))
      = map length (map results (fst (projr (main example_env example_dry_args example_world))))"
    by simp
  also have "\<dots> = [5]" by (simp only: rs5) (simp add: example_wavs_def)
  finally have l5: "map (\<lambda>r. length (results r)) rs' = [5]" using len by simp
  have ex: "\<exists>rs' w''. main example_env (example_dry_args\<lparr>dry_run := False\<rparr>) example_world
                    = Inr (rs', w'')
         \<and> map (\<lambda>r. length (results r)) rs' = [5]"
    using real l5 by (intro exI [of _ rs'] exI [of _ w'']) simp
  have sp0: "spawned (snd (projr (main example_env example_dry_args example_world))) = []"
    using sp by (simp add: example_world_def)
  from d m sp0 rs5 ex show ?thesis by simp
qed

text \<open>
  The claim as stated fails: a dry run of the five-file batch creates two directories and
  writes the report.
\<close>

theorem dry_run_writes_counterexample:
  "dry_run example_dry_args
   \<and> written example_world = []
   \<and> \<not> isl (main example_env example_dry_args example_world)
   \<and> written (snd (projr (main example_env example_dry_args example_world)))
       = [''out'', ''out/001hexoskin'', ''out/batch_conversion_results.json'']"
  by (simp add: example_dry_run) (simp add: example_dry_args_def example_world_def)

end
